theory Spec2Isabelle
  imports Main "HOL-Library.Char_ord" "HOL-Library.List_Lexorder" "HOL-Library.Sublist"
begin

section \<open>Dataset statistics (class DatasetStats of ml-pipeline.js)\<close>

text \<open>
  A JavaScript \<open>Error\<close> is represented by its message, the only part the pipeline reads.
\<close>

datatype error = Error string

fun message :: "error \<Rightarrow> string" where
  "message (Error m) = m"

text \<open>
  The count tables (\<open>originCounts\<close>, \<open>authorCounts\<close>, ...) are plain JavaScript objects
  keyed by strings. A table is the list of the object's own properties in the order
  \<open>Object.keys\<close> and \<open>JSON.stringify\<close> enumerate them: the keys that are array indices
  (canonical decimal numerals below \<open>2^32 - 1\<close>) first, in ascending numeric order, then
  all other keys in the order of their creation. A property holds a number or, once
  a key has met an inherited property (see \<open>bump\<close>), a string.
\<close>

datatype jsval = Num nat | Str string

type_synonym counts = "(string \<times> jsval) list"

definition isDigit :: "char \<Rightarrow> bool" where
  "isDigit c = (c \<in> set ''0123456789'')"

definition isArrayIndex :: "string \<Rightarrow> bool" where
  "isArrayIndex k =
     (k \<noteq> [] \<and> list_all isDigit k \<and> (k = ''0'' \<or> hd k \<noteq> CHR ''0'')
      \<and> (length k < 10 \<or> (length k = 10 \<and> k \<le> ''4294967294'')))"

text \<open>Numeric order of two array indices: the shorter numeral, or the lexically smaller.\<close>

definition indexLess :: "string \<Rightarrow> string \<Rightarrow> bool" where
  "indexLess a b = (length a < length b \<or> (length a = length b \<and> a < b))"

text \<open>Creating the own property \<open>k\<close>, which the object does not have yet.\<close>

fun insertIndexed :: "string \<Rightarrow> jsval \<Rightarrow> counts \<Rightarrow> counts" where
  "insertIndexed k v [] = [(k, v)]"
| "insertIndexed k v ((k', v') # t) =
     (if isArrayIndex k' \<and> indexLess k' k then (k', v') # insertIndexed k v t
      else (k, v) # (k', v') # t)"

definition createOwn :: "string \<Rightarrow> jsval \<Rightarrow> counts \<Rightarrow> counts" where
  "createOwn k v t = (if isArrayIndex k then insertIndexed k v t else t @ [(k, v)])"

text \<open>Assigning to the own property \<open>k\<close>, which keeps its place.\<close>

fun updateOwn :: "string \<Rightarrow> jsval \<Rightarrow> counts \<Rightarrow> counts" where
  "updateOwn k v [] = []"
| "updateOwn k v ((k', v') # t) =
     (if k' = k then (k', v) # t else (k', v') # updateOwn k v t)"

text \<open>
  A key that is no own property is looked up in \<open>Object.prototype\<close>. Its methods are
  functions, which are truthy and which \<open>+ 1\<close> turns into their source text followed
  by \<open>1\<close>; the text is the one Node prints. \<open>__proto__\<close> is an accessor: the read yields
  an object, and the assignment of the resulting string is ignored by its setter, so
  no own property appears.
\<close>

definition objectPrototypeMethods :: "string list" where
  "objectPrototypeMethods =
     [''__defineGetter__'', ''__defineSetter__'', ''hasOwnProperty'', ''__lookupGetter__'',
      ''__lookupSetter__'', ''isPrototypeOf'', ''propertyIsEnumerable'', ''toString'',
      ''valueOf'', ''toLocaleString'']"

definition inheritedText :: "string \<Rightarrow> string option" where
  "inheritedText k =
     (if k = ''constructor'' then Some ''function Object() { [native code] }''
      else if k \<in> set objectPrototypeMethods
      then Some (''function '' @ k @ ''() { [native code] }'')
      else None)"

text \<open>\<^verbatim>\<open>(v || 0) + 1\<close> for an own property that holds \<open>v\<close>.\<close>

fun plusOne :: "jsval \<Rightarrow> jsval" where
  "plusOne (Num v) = Num (v + 1)"
| "plusOne (Str s) = (if s = [] then Num 1 else Str (s @ ''1''))"

text \<open>\<open>bump k t\<close> is the statement \<^verbatim>\<open>t[k] = (t[k] || 0) + 1\<close>.\<close>

definition bump :: "string \<Rightarrow> counts \<Rightarrow> counts" where
  "bump k t =
     (case map_of t k of
        Some v \<Rightarrow> updateOwn k (plusOne v) t
      | None \<Rightarrow>
          if k = ''__proto__'' then t
          else (case inheritedText k of
                  Some src \<Rightarrow> createOwn k (Str (src @ ''1'')) t
                | None \<Rightarrow> createOwn k (Num 1) t))"

text \<open>
  The object handed to \<open>recordFile\<close> for a processed item (the result of
  \<open>metadata.toObject()\<close>): the four properties \<open>recordFile\<close> reads. \<open>origin\<close> and
  \<open>author\<close> are used as property keys; \<open>license\<close> and \<open>toolchain\<close> are tested for
  truthiness first (\<open>None\<close> stands for \<open>undefined\<close>/\<open>null\<close>, and the empty string is
  falsy as well).
\<close>

record metaobj =
  origin :: string
  author :: string
  license :: "string option"
  toolchain :: "string option"

fun truthy :: "string option \<Rightarrow> bool" where
  "truthy None = False"
| "truthy (Some s) = (s \<noteq> [])"

text \<open>\<^verbatim>\<open>if (v) { t[v] = (t[v] || 0) + 1 }\<close>\<close>

fun bump_if_truthy :: "string option \<Rightarrow> counts \<Rightarrow> counts" where
  "bump_if_truthy None t = t"
| "bump_if_truthy (Some v) t = (if truthy (Some v) then bump v t else t)"

text \<open>
  The mutable fields of \<open>DatasetStats\<close>. \<open>sizeStats.min\<close> starts at \<open>Infinity\<close>,
  written \<open>None\<close>; byte sizes and counters are natural numbers.
\<close>

record DatasetStats =
  totalFiles :: nat
  processedFiles :: nat
  skippedFiles :: nat
  errorFiles :: nat
  originCounts :: counts
  authorCounts :: counts
  licenseCounts :: counts
  toolchainCounts :: counts
  sizeMin :: "nat option"
  sizeMax :: nat
  sizeTotal :: nat
  errors :: "(string \<times> string) list"

definition reset :: DatasetStats where
  "reset = \<lparr> totalFiles = 0, processedFiles = 0, skippedFiles = 0, errorFiles = 0,
     originCounts = [(''human'', Num 0), (''ai'', Num 0), (''hybrid'', Num 0)],
     authorCounts = [], licenseCounts = [], toolchainCounts = [],
     sizeMin = None, sizeMax = 0, sizeTotal = 0, errors = [] \<rparr>"

fun math_min :: "nat option \<Rightarrow> nat \<Rightarrow> nat option" where
  "math_min None n = Some n"
| "math_min (Some m) n = Some (min m n)"

text \<open>
  \<open>recordFile(metadata, fileSize, status)\<close>. The status is the string the caller passes.
  With status \<open>processed\<close> and a \<open>null\<close> metadata argument the property read
  \<open>metadata.origin\<close> throws after the two counters have been incremented: the function
  returns the state reached together with the error thrown, if any.
\<close>

definition recordProcessed :: "metaobj \<Rightarrow> nat \<Rightarrow> DatasetStats \<Rightarrow> DatasetStats" where
  "recordProcessed m fileSize s =
     (let s1 = s\<lparr> originCounts := bump (origin m) (originCounts s),
                  authorCounts := bump (author m) (authorCounts s) \<rparr>;
          s2 = s1\<lparr> licenseCounts := bump_if_truthy (license m) (licenseCounts s1) \<rparr>;
          s3 = s2\<lparr> toolchainCounts := bump_if_truthy (toolchain m) (toolchainCounts s2) \<rparr>
      in s3\<lparr> sizeMin := math_min (sizeMin s3) fileSize,
              sizeMax := max (sizeMax s3) fileSize,
              sizeTotal := sizeTotal s3 + fileSize \<rparr>)"

definition recordFile ::
  "metaobj option \<Rightarrow> nat \<Rightarrow> string \<Rightarrow> DatasetStats \<Rightarrow> DatasetStats \<times> error option" where
  "recordFile metadata fileSize status s =
     (let s1 = s\<lparr> totalFiles := totalFiles s + 1 \<rparr> in
      if status = ''processed'' then
        (let s2 = s1\<lparr> processedFiles := processedFiles s1 + 1 \<rparr> in
         case metadata of
           None \<Rightarrow> (s2, Some (Error ''Cannot read properties of null''))
         | Some m \<Rightarrow> (recordProcessed m fileSize s2, None))
      else if status = ''skipped'' then (s1\<lparr> skippedFiles := skippedFiles s1 + 1 \<rparr>, None)
      else if status = ''error'' then (s1\<lparr> errorFiles := errorFiles s1 + 1 \<rparr>, None)
      else (s1, None))"

definition recordError :: "string \<Rightarrow> error \<Rightarrow> DatasetStats \<Rightarrow> DatasetStats" where
  "recordError file e s = s\<lparr> errors := errors s @ [(file, message e)] \<rparr>"

text \<open>A sequence of \<open>recordFile\<close> calls on one statistics object, in order.\<close>

fun recordFiles :: "(metaobj option \<times> nat \<times> string) list \<Rightarrow> DatasetStats \<Rightarrow> DatasetStats" where
  "recordFiles [] s = s"
| "recordFiles ((m, sz, status) # calls) s = recordFiles calls (fst (recordFile m sz status s))"

definition known_status :: "string \<Rightarrow> bool" where
  "known_status status = (status = ''processed'' \<or> status = ''skipped'' \<or> status = ''error'')"

definition counters_balanced :: "DatasetStats \<Rightarrow> bool" where
  "counters_balanced s = (totalFiles s = processedFiles s + skippedFiles s + errorFiles s)"

section \<open>Configuration and environment\<close>

text \<open>
  The fields of \<open>CONFIG\<close> that decide behaviour (\<open>logLevel\<close> only selects what is
  printed to the console, which is not modelled).
\<close>

record config =
  datasetPath :: string
  outputPath :: string
  strictMode :: bool
  maxFileSize :: nat
  allowedOrigins :: "string list"
  excludePatterns :: "string list"

text \<open>The result object of \<open>metadata.validate()\<close>.\<close>

record validation =
  isValid :: bool
  validationError :: string

text \<open>
  What discovery sees under the dataset root. A directory carries the names
  \<open>readdirSync\<close> returns, in the order it returns them, each with the node
  \<open>statSync\<close> finds there; \<open>findFiles\<close> asks \<open>statSync\<close> only whether an entry is a
  directory, so every other kind of entry (a regular file, but also a FIFO, socket or
  device) is a \<open>NonDirectory\<close>.
\<close>

datatype fkind = RegularFile | SpecialFile

datatype fsnode =
    Directory "(string \<times> fsnode) list"
  | UnreadableDirectory error
  | NonDirectory fkind
  | StatFails error

text \<open>
  Everything outside ml-pipeline.js that the pipeline calls, as one record:
  \<^item> Node's \<open>fs\<close> module: \<open>statSync(p).size\<close>, \<open>existsSync\<close>, \<open>readFileSync\<close> (each may
    throw, \<open>Inl\<close>), and for the output side \<open>mkdirSync\<close> and \<open>writeFileSync\<close>, which
    either succeed or throw; \<open>datasetTree\<close> is the tree found at \<open>datasetPath\<close>;
  \<^item> Node's \<open>path\<close> module: \<open>basename\<close>, \<open>join\<close>, \<open>relative\<close>, \<open>dirname\<close>;
  \<^item> the modules lib/core/metadata and lib/formats/html-meta, which are not part of
    the sources at hand: \<open>parseXML\<close>, the imported \<open>extractMetadata\<close> (here
    \<open>htmlExtractMetadata\<close>), and the methods and the \<open>origin\<close> property of a
    \<open>ContentMetadata\<close> object of type \<open>'m\<close>; every call may throw, and the two
    parsers may return \<open>null\<close>;
  \<^item> the clock (\<open>new Date().toISOString()\<close>);
  \<^item> the two floating-point computations of the report:
    \<open>pctFixed1 a b\<close> for \<^verbatim>\<open>(a / b * 100).toFixed(1)\<close>, where \<open>a\<close> is a counter or an
    entry of a count table, and \<open>roundDiv a b\<close> for \<^verbatim>\<open>Math.round(a / b)\<close>.
\<close>

record 'm env =
  statSync :: "string \<Rightarrow> error + nat"
  existsSync :: "string \<Rightarrow> bool"
  readFileSync :: "string \<Rightarrow> error + string"
  mkdirSync :: "string \<Rightarrow> error option"
  writeFileSync :: "string \<Rightarrow> error option"
  datasetTree :: fsnode
  basename :: "string \<Rightarrow> string"
  join :: "string \<Rightarrow> string \<Rightarrow> string"
  relative :: "string \<Rightarrow> string \<Rightarrow> string"
  dirname :: "string \<Rightarrow> string"
  parseXML :: "string \<Rightarrow> error + 'm option"
  htmlExtractMetadata :: "string \<Rightarrow> error + 'm option"
  validate :: "'m \<Rightarrow> error + validation"
  metadataOrigin :: "'m \<Rightarrow> string"
  verifyIntegrity :: "'m \<Rightarrow> string \<Rightarrow> error + bool"
  toObject :: "'m \<Rightarrow> error + metaobj"
  toXML :: "'m \<Rightarrow> error + string"
  now :: string
  pctFixed1 :: "jsval \<Rightarrow> nat \<Rightarrow> string"
  roundDiv :: "nat \<Rightarrow> nat \<Rightarrow> nat"

section \<open>String helpers\<close>

definition endsWith :: "string \<Rightarrow> string \<Rightarrow> bool" where
  "endsWith s suf = (length suf \<le> length s \<and> drop (length s - length suf) s = suf)"

fun includes_str :: "string \<Rightarrow> string \<Rightarrow> bool" where
  "includes_str [] p = (p = [])"
| "includes_str (c # cs) p = (take (length p) (c # cs) = p \<or> includes_str cs p)"

section \<open>Per-item processing (class FileProcessor)\<close>

text \<open>
  The steps of an item's processing, in program order: the calls to the file system
  and to the metadata library, and the test of the origin against \<open>allowedOrigins\<close>.
  The trace is what the temporal claims are stated on; it does not influence the
  result.
\<close>

datatype event =
    EStat string
  | EExists string
  | ERead string
  | EParseXML
  | EHtmlExtract
  | EValidate
  | EOriginFilter
  | EVerifyIntegrity
  | EToObject

text \<open>
  \<open>FileProcessor.extractMetadata\<close>: the sidecar first; when it does not exist, or
  reading or parsing it throws, the embedded metadata of an \<open>.html\<close> item; else \<open>null\<close>.
\<close>

definition extractEmbedded :: "'m env \<Rightarrow> string \<Rightarrow> 'm option \<times> event list" where
  "extractEmbedded E filePath =
     (if endsWith filePath ''.html'' then
        (case readFileSync E filePath of
           Inl e \<Rightarrow> (None, [ERead filePath])
         | Inr htmlContent \<Rightarrow>
             (case htmlExtractMetadata E htmlContent of
                Inl e \<Rightarrow> (None, [ERead filePath, EHtmlExtract])
              | Inr r \<Rightarrow> (r, [ERead filePath, EHtmlExtract])))
      else (None, []))"

definition extractMetadata :: "'m env \<Rightarrow> string \<Rightarrow> 'm option \<times> event list" where
  "extractMetadata E filePath =
     (let sidecarPath = filePath @ ''.meta.xml'' in
      if existsSync E sidecarPath then
        (case readFileSync E sidecarPath of
           Inl e \<Rightarrow>
             (fst (extractEmbedded E filePath),
              [EExists sidecarPath, ERead sidecarPath] @ snd (extractEmbedded E filePath))
         | Inr xmlContent \<Rightarrow>
             (case parseXML E xmlContent of
                Inl e \<Rightarrow>
                  (fst (extractEmbedded E filePath),
                   [EExists sidecarPath, ERead sidecarPath, EParseXML]
                   @ snd (extractEmbedded E filePath))
              | Inr r \<Rightarrow> (r, [EExists sidecarPath, ERead sidecarPath, EParseXML])))
      else (fst (extractEmbedded E filePath),
            [EExists sidecarPath] @ snd (extractEmbedded E filePath)))"

text \<open>
  What \<open>processFile\<close> resolves to (\<open>None\<close> for \<open>null\<close>, else the triple
  \<open>{ filePath, metadata, content }\<close>), the statistics after the call, and the trace.
\<close>

record 'm outcome =
  result :: "(string \<times> 'm \<times> string) option"
  stats :: DatasetStats
  trace :: "event list"

text \<open>The \<open>catch\<close> block of \<open>processFile\<close>.\<close>

definition caught :: "string \<Rightarrow> error \<Rightarrow> DatasetStats \<Rightarrow> event list \<Rightarrow> 'm outcome" where
  "caught filePath e s tr =
     \<lparr> result = None,
       stats = fst (recordFile None 0 ''error'' (recordError filePath e s)),
       trace = tr \<rparr>"

definition processFile :: "config \<Rightarrow> 'm env \<Rightarrow> string \<Rightarrow> DatasetStats \<Rightarrow> 'm outcome" where
  "processFile cfg E filePath s =
     (let fileName = basename E filePath in
      case statSync E filePath of
        Inl e \<Rightarrow> caught filePath e s [EStat filePath]
      | Inr fsize \<Rightarrow>
          if fsize > maxFileSize cfg then
            \<lparr> result = None, stats = fst (recordFile None fsize ''skipped'' s),
              trace = [EStat filePath] \<rparr>
          else if \<exists>pattern \<in> set (excludePatterns cfg). includes_str fileName pattern then
            \<lparr> result = None, stats = fst (recordFile None fsize ''skipped'' s),
              trace = [EStat filePath] \<rparr>
          else
            (let tr1 = EStat filePath # snd (extractMetadata E filePath) in
             case fst (extractMetadata E filePath) of
               None \<Rightarrow>
                 \<lparr> result = None, stats = fst (recordFile None fsize ''skipped'' s),
                   trace = tr1 \<rparr>
             | Some metadata \<Rightarrow>
                 (case validate E metadata of
                    Inl e \<Rightarrow> caught filePath e s (tr1 @ [EValidate])
                  | Inr v \<Rightarrow>
                      if \<not> isValid v then
                        \<lparr> result = None,
                          stats = fst (recordFile None fsize ''error''
                            (recordError filePath
                               (Error (''Invalid metadata: '' @ validationError v)) s)),
                          trace = tr1 @ [EValidate] \<rparr>
                      else if metadataOrigin E metadata \<notin> set (allowedOrigins cfg) then
                        \<lparr> result = None, stats = fst (recordFile None fsize ''skipped'' s),
                          trace = tr1 @ [EValidate, EOriginFilter] \<rparr>
                      else
                        (let tr2 = tr1 @ [EValidate, EOriginFilter, ERead filePath] in
                         case readFileSync E filePath of
                           Inl e \<Rightarrow> caught filePath e s tr2
                         | Inr content \<Rightarrow>
                             (case verifyIntegrity E metadata content of
                                Inl e \<Rightarrow> caught filePath e s (tr2 @ [EVerifyIntegrity])
                              | Inr ok \<Rightarrow>
                                  if \<not> ok then
                                    \<lparr> result = (if strictMode cfg then None
                                                 else Some (filePath, metadata, content)),
                                      stats = fst (recordFile None fsize ''error''
                                        (recordError filePath
                                           (Error ''Content integrity check failed'') s)),
                                      trace = tr2 @ [EVerifyIntegrity] \<rparr>
                                  else
                                    (case toObject E metadata of
                                       Inl e \<Rightarrow>
                                         caught filePath e s (tr2 @ [EVerifyIntegrity, EToObject])
                                     | Inr obj \<Rightarrow>
                                         (case recordFile (Some obj) fsize ''processed'' s of
                                            (s', Some e) \<Rightarrow>
                                              caught filePath e s'
                                                (tr2 @ [EVerifyIntegrity, EToObject])
                                          | (s', None) \<Rightarrow>
                                              \<lparr> result = Some (filePath, metadata, content),
                                                stats = s',
                                                trace = tr2 @ [EVerifyIntegrity, EToObject] \<rparr>)))))))"

section \<open>Discovery (MLPipeline.findFiles, MLPipeline.isProcessableFile)\<close>

definition extensions :: "string list" where
  "extensions = [''.txt'', ''.md'', ''.html'', ''.json'']"

definition isProcessableFile :: "string \<Rightarrow> bool" where
  "isProcessableFile filename =
     ((\<exists>ext \<in> set extensions. endsWith filename ext) \<and> \<not> endsWith filename ''.meta.xml'')"

text \<open>
  \<open>findFiles(directory)\<close> on the node found at \<open>directory\<close>: \<open>readdirSync\<close> throws on
  anything but a readable directory; the loop over the listing is \<open>findItems\<close>. The
  first argument is \<open>path.join\<close>.
\<close>

fun findFiles :: "(string \<Rightarrow> string \<Rightarrow> string) \<Rightarrow> string \<Rightarrow> fsnode \<Rightarrow> error + string list"
and findItems ::
  "(string \<Rightarrow> string \<Rightarrow> string) \<Rightarrow> string \<Rightarrow> (string \<times> fsnode) list \<Rightarrow> error + string list"
where
  "findFiles j directory (Directory items) = findItems j directory items"
| "findFiles j directory (UnreadableDirectory e) = Inl e"
| "findFiles j directory (NonDirectory k) = Inl (Error ''ENOTDIR: not a directory'')"
| "findFiles j directory (StatFails e) = Inl e"
| "findItems j directory [] = Inr []"
| "findItems j directory ((item, StatFails e) # rest) = Inl e"
| "findItems j directory ((item, NonDirectory k) # rest) =
     (case findItems j directory rest of
        Inl e \<Rightarrow> Inl e
      | Inr files \<Rightarrow>
          Inr ((if isProcessableFile item then [j directory item] else []) @ files))"
| "findItems j directory ((item, Directory sub) # rest) =
     (case findFiles j (j directory item) (Directory sub) of
        Inl e \<Rightarrow> Inl e
      | Inr found \<Rightarrow>
          (case findItems j directory rest of
             Inl e \<Rightarrow> Inl e
           | Inr files \<Rightarrow> Inr (found @ files)))"
| "findItems j directory ((item, UnreadableDirectory e) # rest) = Inl e"

text \<open>
  The non-directory entries below a directory node: \<open>entryBelow j d node p n k\<close> says
  that an entry named \<open>n\<close> of kind \<open>k\<close> lies at the joined path \<open>p\<close>.
\<close>

inductive entryBelow ::
  "(string \<Rightarrow> string \<Rightarrow> string) \<Rightarrow> string \<Rightarrow> fsnode \<Rightarrow> string \<Rightarrow> string \<Rightarrow> fkind \<Rightarrow> bool"
  for j :: "string \<Rightarrow> string \<Rightarrow> string"
where
  direct: "(item, NonDirectory k) \<in> set items \<Longrightarrow> entryBelow j d (Directory items) (j d item) item k"
| nested: "(item, Directory sub) \<in> set items \<Longrightarrow> entryBelow j (j d item) (Directory sub) p n k
           \<Longrightarrow> entryBelow j d (Directory items) p n k"

text \<open>What one entry of a listing contributes to the result when nothing throws.\<close>

fun contribution :: "(string \<Rightarrow> string \<Rightarrow> string) \<Rightarrow> string \<Rightarrow> string \<times> fsnode \<Rightarrow> string list" where
  "contribution j d (item, NonDirectory k) = (if isProcessableFile item then [j d item] else [])"
| "contribution j d (item, node) =
     (case findFiles j (j d item) node of Inl e \<Rightarrow> [] | Inr found \<Rightarrow> found)"

fun isNonDirectory :: "fsnode \<Rightarrow> bool" where
  "isNonDirectory (NonDirectory k) = True"
| "isNonDirectory node = False"

text \<open>
  The directories of a tree: \<open>dirBelow j d node dp items\<close> says that the directory at
  the joined path \<open>dp\<close>, with listing \<open>items\<close>, is the node at \<open>d\<close> itself or lies below it.
\<close>

inductive dirBelow ::
  "(string \<Rightarrow> string \<Rightarrow> string) \<Rightarrow> string \<Rightarrow> fsnode \<Rightarrow> string \<Rightarrow> (string \<times> fsnode) list \<Rightarrow> bool"
  for j :: "string \<Rightarrow> string \<Rightarrow> string"
where
  top: "dirBelow j d (Directory items) d items"
| deeper: "(item, Directory sub) \<in> set items \<Longrightarrow> dirBelow j (j d item) (Directory sub) dp its
           \<Longrightarrow> dirBelow j d (Directory items) dp its"

text \<open>The names of the processable files that lie directly in a directory, as listed.\<close>

definition directFiles :: "(string \<times> fsnode) list \<Rightarrow> string list" where
  "directFiles items =
     filter isProcessableFile (map fst (filter (\<lambda>x. isNonDirectory (snd x)) items))"

text \<open>
  \<open>fs.readdirSync\<close> hands out the names of a directory in lexical (byte) order;
  \<open>lexicalListing\<close> says so of every listing of a tree.
\<close>

fun lexicalListing :: "fsnode \<Rightarrow> bool"
and lexicalItems :: "(string \<times> fsnode) list \<Rightarrow> bool"
where
  "lexicalListing (Directory items) = (sorted (map fst items) \<and> lexicalItems items)"
| "lexicalListing (UnreadableDirectory e) = True"
| "lexicalListing (NonDirectory k) = True"
| "lexicalListing (StatFails e) = True"
| "lexicalItems [] = True"
| "lexicalItems ((item, node) # rest) = (lexicalListing node \<and> lexicalItems rest)"

section \<open>The run (class MLPipeline and the command-line entry)\<close>

text \<open>The loop of \<open>run\<close> over the discovered files.\<close>

fun processFiles ::
  "config \<Rightarrow> 'm env \<Rightarrow> string list \<Rightarrow> DatasetStats
   \<Rightarrow> DatasetStats \<times> (string \<times> 'm \<times> string) list \<times> event list" where
  "processFiles cfg E [] s = (s, [], [])"
| "processFiles cfg E (file # files) s =
     (let out = processFile cfg E file s;
          rest = processFiles cfg E files (stats out)
      in (fst rest,
          (case result out of None \<Rightarrow> [] | Some r \<Rightarrow> [r]) @ fst (snd rest),
          trace out @ snd (snd rest)))"

text \<open>
  What a run writes below the output root, in order. The report and the manifest are
  kept as values; \<open>JSON.stringify\<close> is a function of them.
\<close>

datatype rate = RateNumber nat | RateString string

record report =
  r_totalFiles :: nat
  r_processedFiles :: nat
  r_skippedFiles :: nat
  r_errorFiles :: nat
  r_successRate :: rate
  r_origins :: counts
  r_authors :: nat
  r_licenses :: nat
  r_toolchains :: nat
  r_sizeMin :: nat
  r_sizeMax :: nat
  r_sizeAverage :: nat
  r_sizeTotal :: nat
  r_errors :: "(string \<times> string) list"

record manifest =
  m_version :: string
  m_generatedAt :: string
  m_configuration :: config
  m_statistics :: "nat \<times> nat \<times> nat \<times> nat \<times> rate"
  m_originDistribution :: counts
  m_integrityVerified :: bool
  m_metadataCompliant :: bool
  m_humanContentPercentage :: string

datatype written =
    ContentFile string string
  | SidecarFile string string
  | ReportFile string report
  | ManifestFile string manifest

definition getReport :: "'m env \<Rightarrow> DatasetStats \<Rightarrow> report" where
  "getReport E s =
     \<lparr> r_totalFiles = totalFiles s,
       r_processedFiles = processedFiles s,
       r_skippedFiles = skippedFiles s,
       r_errorFiles = errorFiles s,
       r_successRate = (if totalFiles s > 0
                        then RateString (pctFixed1 E (Num (processedFiles s)) (totalFiles s))
                        else RateNumber 0),
       r_origins = originCounts s,
       r_authors = length (authorCounts s),
       r_licenses = length (licenseCounts s),
       r_toolchains = length (toolchainCounts s),
       r_sizeMin = (case sizeMin s of None \<Rightarrow> 0 | Some m \<Rightarrow> m),
       r_sizeMax = sizeMax s,
       r_sizeAverage = (if processedFiles s > 0
                        then roundDiv E (sizeTotal s) (processedFiles s) else 0),
       r_sizeTotal = sizeTotal s,
       r_errors = errors s \<rparr>"

text \<open>
  One iteration of the loop of \<open>copyCleanFiles\<close>: the \<open>try\<close> block stops at the first
  call that throws, and the \<open>catch\<close> block records the error without touching any
  counter. A file written before the throw stays written. \<open>mkdirSync\<close> is asked
  whenever the directory did not exist when the run began; with \<open>recursive: true\<close> it
  succeeds on a directory an earlier iteration created.
\<close>

definition copyCleanFile ::
  "config \<Rightarrow> 'm env \<Rightarrow> string \<times> 'm \<times> string \<Rightarrow> DatasetStats \<times> written list
   \<Rightarrow> DatasetStats \<times> written list" where
  "copyCleanFile cfg E item acc =
     (case item of (filePath, metadata, content) \<Rightarrow>
      case acc of (s, out) \<Rightarrow>
      (let relativePath = relative E (datasetPath cfg) filePath;
           outPath = join E (outputPath cfg) relativePath;
           outputDir = dirname E outPath
       in case (if existsSync E outputDir then None else mkdirSync E outputDir) of
            Some e \<Rightarrow> (recordError filePath e s, out)
          | None \<Rightarrow>
              (case writeFileSync E outPath of
                 Some e \<Rightarrow> (recordError filePath e s, out)
               | None \<Rightarrow>
                   (case toXML E metadata of
                      Inl e \<Rightarrow> (recordError filePath e s, out @ [ContentFile outPath content])
                    | Inr xml \<Rightarrow>
                        (case writeFileSync E (outPath @ ''.meta.xml'') of
                           Some e \<Rightarrow>
                             (recordError filePath e s, out @ [ContentFile outPath content])
                         | None \<Rightarrow>
                             (s, out @ [ContentFile outPath content,
                                        SidecarFile (outPath @ ''.meta.xml'') xml]))))))"

fun copyCleanFiles ::
  "config \<Rightarrow> 'm env \<Rightarrow> (string \<times> 'm \<times> string) list \<Rightarrow> DatasetStats \<times> written list
   \<Rightarrow> DatasetStats \<times> written list" where
  "copyCleanFiles cfg E [] acc = acc"
| "copyCleanFiles cfg E (item # items) acc =
     copyCleanFiles cfg E items (copyCleanFile cfg E item acc)"

text \<open>\<^verbatim>\<open>(v || 0)\<close> for a property read that may be \<open>undefined\<close>.\<close>

fun orZero :: "jsval option \<Rightarrow> jsval" where
  "orZero None = Num 0"
| "orZero (Some (Num v)) = Num v"
| "orZero (Some (Str s)) = (if s = [] then Num 0 else Str s)"

text \<open>
  \<open>generateReports\<close>: the report is written first, then the manifest; a failed write
  throws out of \<open>run\<close>.
\<close>

definition generateReports ::
  "config \<Rightarrow> 'm env \<Rightarrow> DatasetStats \<Rightarrow> written list \<Rightarrow> error + written list" where
  "generateReports cfg E s out =
     (let rep = getReport E s;
          reportPath = join E (outputPath cfg) ''processing-report.json'';
          manifestPath = join E (outputPath cfg) ''dataset-manifest.json'';
          man = \<lparr> m_version = ''1.0'',
                  m_generatedAt = now E,
                  m_configuration = cfg,
                  m_statistics = (r_totalFiles rep, r_processedFiles rep, r_skippedFiles rep,
                                  r_errorFiles rep, r_successRate rep),
                  m_originDistribution = r_origins rep,
                  m_integrityVerified = True,
                  m_metadataCompliant = True,
                  m_humanContentPercentage =
                    pctFixed1 E (orZero (map_of (r_origins rep) ''human'')) (r_processedFiles rep) \<rparr>
      in case writeFileSync E reportPath of
           Some e \<Rightarrow> Inl e
         | None \<Rightarrow>
             (case writeFileSync E manifestPath of
                Some e \<Rightarrow> Inl e
              | None \<Rightarrow> Inr (out @ [ReportFile reportPath rep, ManifestFile manifestPath man])))"

text \<open>
  \<open>run\<close> on an \<open>MLPipeline\<close> instance whose statistics object is in state \<open>s\<close>: the
  method never calls \<open>reset\<close>, so it counts onwards from whatever earlier calls on the
  same instance left. \<open>Inl\<close> is a rejected promise.
\<close>

record 'm finished =
  finalStats :: DatasetStats
  processedFilesList :: "(string \<times> 'm \<times> string) list"
  outputs :: "written list"
  runTrace :: "event list"

definition run :: "config \<Rightarrow> 'm env \<Rightarrow> DatasetStats \<Rightarrow> error + 'm finished" where
  "run cfg E s =
     (case (if existsSync E (outputPath cfg) then None else mkdirSync E (outputPath cfg)) of
        Some e \<Rightarrow> Inl e
      | None \<Rightarrow>
          (case findFiles (join E) (datasetPath cfg) (datasetTree E) of
             Inl e \<Rightarrow> Inl e
           | Inr files \<Rightarrow>
               (let processed = processFiles cfg E files s;
                    copied = copyCleanFiles cfg E (fst (snd processed)) (fst processed, [])
                in case generateReports cfg E (fst copied) (snd copied) of
                     Inl e \<Rightarrow> Inl e
                   | Inr out \<Rightarrow>
                       Inr \<lparr> finalStats = fst copied,
                             processedFilesList = fst (snd processed),
                             outputs = out,
                             runTrace = snd (snd processed) \<rparr>)))"

text \<open>
  The constructor of \<open>MLPipeline\<close> builds a new \<open>DatasetStats\<close>, whose constructor calls
  \<open>reset\<close>: the first \<open>run\<close> of a new instance starts from \<open>reset\<close>. A second \<open>run\<close> on
  the same instance starts from the statistics the first one ended with.
\<close>

definition firstRun :: "config \<Rightarrow> 'm env \<Rightarrow> error + 'm finished" where
  "firstRun cfg E = run cfg E reset"

definition secondRun :: "config \<Rightarrow> 'm env \<Rightarrow> error + 'm finished" where
  "secondRun cfg E =
     (case run cfg E reset of Inl e \<Rightarrow> Inl e | Inr done \<Rightarrow> run cfg E (finalStats done))"

text \<open>
  The command-line entry builds a new pipeline and runs it once:
  \<^verbatim>\<open>pipeline.run().catch(error => { ...; process.exit(1) })\<close>.
  The process ends with status 1 when \<open>run\<close> rejects and with status 0 otherwise;
  nothing else sets the status.
\<close>

definition exitStatus :: "error + 'a \<Rightarrow> nat" where
  "exitStatus r = (case r of Inl e \<Rightarrow> 1 | Inr done \<Rightarrow> 0)"

text \<open>The report a finished run has written.\<close>

fun writtenReport :: "written list \<Rightarrow> report option" where
  "writtenReport [] = None"
| "writtenReport (ReportFile p r # ws) = Some r"
| "writtenReport (w # ws) = writtenReport ws"

definition runReport :: "error + 'm finished \<Rightarrow> error + report option" where
  "runReport r = (case r of Inl e \<Rightarrow> Inl e | Inr done \<Rightarrow> Inr (writtenReport (outputs done)))"

section \<open>A concrete dataset\<close>

text \<open>
  A small environment on which the definitions above can be evaluated. The metadata
  object carries its origin, author and recorded hash; the stand-in digest of a
  content is the content itself, a record validates when its author is not empty,
  and the sidecar texts are single letters looked up in a table.
\<close>

record demoMeta =
  dm_origin :: string
  dm_author :: string
  dm_hash :: string

definition demoSidecars :: "(string \<times> demoMeta) list" where
  "demoSidecars =
     [(''A'', \<lparr> dm_origin = ''human'', dm_author = ''alice'', dm_hash = ''hello'' \<rparr>),
      (''B'', \<lparr> dm_origin = ''ai'', dm_author = ''bot'', dm_hash = ''robot'' \<rparr>),
      (''T'', \<lparr> dm_origin = ''human'', dm_author = ''alice'', dm_hash = ''original'' \<rparr>),
      (''U'', \<lparr> dm_origin = ''ai'', dm_author = ''bot'', dm_hash = ''genuine'' \<rparr>),
      (''D'', \<lparr> dm_origin = ''human'', dm_author = [], dm_hash = ''draft'' \<rparr>)]"

definition demoFiles :: "(string \<times> string) list" where
  "demoFiles =
     [(''data/a.txt'', ''hello''), (''data/a.txt.meta.xml'', ''A''),
      (''data/b.txt'', ''robot''), (''data/b.txt.meta.xml'', ''B''),
      (''data/c.txt'', ''plain''),
      (''data/t.txt'', ''edited''), (''data/t.txt.meta.xml'', ''T''),
      (''data/u.txt'', ''forged''), (''data/u.txt.meta.xml'', ''U''),
      (''data/d.txt'', ''draft''), (''data/d.txt.meta.xml'', ''D''),
      (''data/big.txt'', ''0123456789''), (''data/big.txt.meta.xml'', ''A'')]"

definition posixJoin :: "string \<Rightarrow> string \<Rightarrow> string" where
  "posixJoin d n = d @ ''/'' @ n"

definition posixBasename :: "string \<Rightarrow> string" where
  "posixBasename p = rev (takeWhile (\<lambda>c. c \<noteq> CHR ''/'') (rev p))"

definition posixDirname :: "string \<Rightarrow> string" where
  "posixDirname p = rev (drop 1 (dropWhile (\<lambda>c. c \<noteq> CHR ''/'') (rev p)))"

definition posixRelative :: "string \<Rightarrow> string \<Rightarrow> string" where
  "posixRelative from p = drop (length from + 1) p"

definition demoValidate :: "demoMeta \<Rightarrow> error + validation" where
  "demoValidate m =
     Inr (if dm_author m = []
          then \<lparr> isValid = False, validationError = ''Missing required field: author'' \<rparr>
          else \<lparr> isValid = True, validationError = [] \<rparr>)"

text \<open>
  \<open>demoEnv tree failing clock\<close>: the dataset tree, the output paths on which
  \<open>writeFileSync\<close> throws, and the time of the run.
\<close>

definition demoEnv :: "fsnode \<Rightarrow> string list \<Rightarrow> string \<Rightarrow> demoMeta env" where
  "demoEnv tree failing clock =
     \<lparr> statSync = (\<lambda>p. case map_of demoFiles p of
                          None \<Rightarrow> Inl (Error ''ENOENT: no such file or directory'')
                        | Some c \<Rightarrow> Inr (length c)),
       existsSync = (\<lambda>p. p \<in> set (map fst demoFiles)),
       readFileSync = (\<lambda>p. case map_of demoFiles p of
                              None \<Rightarrow> Inl (Error ''ENOENT: no such file or directory'')
                            | Some c \<Rightarrow> Inr c),
       mkdirSync = (\<lambda>p. None),
       writeFileSync = (\<lambda>p. if p \<in> set failing
                             then Some (Error ''ENOSPC: no space left on device'') else None),
       datasetTree = tree,
       basename = posixBasename,
       join = posixJoin,
       relative = posixRelative,
       dirname = posixDirname,
       parseXML = (\<lambda>x. case map_of demoSidecars x of
                          None \<Rightarrow> Inl (Error ''Invalid XML'')
                        | Some m \<Rightarrow> Inr (Some m)),
       htmlExtractMetadata = (\<lambda>h. Inr None),
       validate = demoValidate,
       metadataOrigin = dm_origin,
       verifyIntegrity = (\<lambda>m content. Inr (dm_hash m = content)),
       toObject = (\<lambda>m. Inr \<lparr> origin = dm_origin m, author = dm_author m,
                              license = None, toolchain = None \<rparr>),
       toXML = (\<lambda>m. Inr (''<meta origin='' @ dm_origin m @ ''/>'')),
       now = clock,
       pctFixed1 = (\<lambda>a b. if b = 0 then ''NaN'' else ''pct''),
       roundDiv = (\<lambda>a b. (2 * a + b) div (2 * b)) \<rparr>"

definition demoConfig :: "bool \<Rightarrow> config" where
  "demoConfig strict =
     \<lparr> datasetPath = ''data'', outputPath = ''out'', strictMode = strict,
       maxFileSize = 8, allowedOrigins = [''human''], excludePatterns = [] \<rparr>"

definition flatTree :: "string list \<Rightarrow> fsnode" where
  "flatTree names = Directory (map (\<lambda>n. (n, NonDirectory RegularFile)) names)"

text \<open>A sequence of \<open>recordFile\<close> calls of all three kinds.\<close>

definition demoObj :: metaobj where
  "demoObj = \<lparr> origin = ''human'', author = ''alice'', license = Some ''MIT'', toolchain = None \<rparr>"

definition demoCalls :: "(metaobj option \<times> nat \<times> string) list" where
  "demoCalls = [(Some demoObj, 5, ''processed''), (None, 3, ''skipped''), (None, 0, ''error''),
                (Some demoObj, 7, ''processed'')]"

text \<open>The environment for single items (the tree plays no part in \<open>processFile\<close>).\<close>

definition demoE :: "demoMeta env" where
  "demoE = demoEnv (flatTree []) [] ''t0''"

definition demoInvalid :: validation where
  "demoInvalid = \<lparr> isValid = False, validationError = ''Missing required field: author'' \<rparr>"

definition demoU :: demoMeta where
  "demoU = \<lparr> dm_origin = ''ai'', dm_author = ''bot'', dm_hash = ''genuine'' \<rparr>"

text \<open>A run over one accepted item whose copy fails: the disk is full at \<open>out/a.txt\<close>.\<close>

definition demoA :: demoMeta where
  "demoA = \<lparr> dm_origin = ''human'', dm_author = ''alice'', dm_hash = ''hello'' \<rparr>"

definition demoFullE :: "demoMeta env" where
  "demoFullE = demoEnv (flatTree [''a.txt'']) [''out/a.txt''] ''t0''"

text \<open>Where \<open>copyCleanFiles\<close> writes the content of the item at \<open>filePath\<close>.\<close>

definition outPathOf :: "config \<Rightarrow> 'm env \<Rightarrow> string \<Rightarrow> string" where
  "outPathOf cfg E filePath = join E (outputPath cfg) (relative E (datasetPath cfg) filePath)"

text \<open>A run over the one item whose content was edited after tagging.\<close>

definition demoT :: demoMeta where
  "demoT = \<lparr> dm_origin = ''human'', dm_author = ''alice'', dm_hash = ''original'' \<rparr>"

definition demoTamperedE :: "demoMeta env" where
  "demoTamperedE = demoEnv (flatTree [''t.txt'']) [] ''t0''"

definition demoValid :: validation where
  "demoValid = \<lparr> isValid = True, validationError = [] \<rparr>"



text \<open>A run whose report cannot be written.\<close>

definition demoNoReportE :: "demoMeta env" where
  "demoNoReportE = demoEnv (flatTree [''a.txt'']) [''out/processing-report.json''] ''t0''"

text \<open>A listing whose first entry is a FIFO with a content extension.\<close>

definition demoFifoTree :: fsnode where
  "demoFifoTree =
     Directory [(''a.txt'', NonDirectory SpecialFile), (''b.txt'', NonDirectory RegularFile)]"

text \<open>A nested tree with sidecars, listed in lexical order.\<close>

definition demoNotes :: "(string \<times> fsnode) list" where
  "demoNotes = [(''n.md'', NonDirectory RegularFile), (''n.png'', NonDirectory RegularFile)]"

definition demoNestedTree :: fsnode where
  "demoNestedTree =
     Directory [(''a.txt'', NonDirectory RegularFile),
                (''a.txt.meta.xml'', NonDirectory RegularFile),
                (''notes'', Directory demoNotes),
                (''z.html'', NonDirectory RegularFile)]"

text \<open>
  Two environments show the same input tree with the output root cleared when they
  differ at most in the clock and in which directories exist: the tree, the sizes and
  contents of the files, the existence of every sidecar, the answers of the \<open>path\<close>
  module, of the metadata library and of the number formatting, and the outcome of
  every \<open>mkdirSync\<close> and \<open>writeFileSync\<close> are the same, and a path that exists in one of
  them only is a directory that \<open>mkdirSync\<close> creates without error.
\<close>

definition sameWorld :: "'m env \<Rightarrow> 'm env \<Rightarrow> bool" where
  "sameWorld E1 E2 =
     (E2 = E1\<lparr> now := now E2, existsSync := existsSync E2 \<rparr>
      \<and> (\<forall>p. existsSync E2 (p @ ''.meta.xml'') = existsSync E1 (p @ ''.meta.xml''))
      \<and> (\<forall>d. existsSync E2 d \<noteq> existsSync E1 d \<longrightarrow> mkdirSync E1 d = None))"

text \<open>
  Scenario A of the specification, run at a given time; in the second environment the
  emptied output root still exists.
\<close>

definition demoScenarioA :: "string \<Rightarrow> demoMeta env" where
  "demoScenarioA clock = demoEnv (flatTree [''a.txt'', ''b.txt'', ''c.txt'']) [] clock"

definition demoScenarioA_again :: "string \<Rightarrow> demoMeta env" where
  "demoScenarioA_again clock =
     (demoScenarioA clock)\<lparr> existsSync := (\<lambda>p. p = ''out'' \<or> p \<in> set (map fst demoFiles)) \<rparr>"

text \<open>The four counters of the report a run has written.\<close>

definition reportTotals :: "error + 'm finished \<Rightarrow> (nat \<times> nat \<times> nat \<times> nat) option" where
  "reportTotals r =
     (case r of
        Inl e \<Rightarrow> None
      | Inr done \<Rightarrow>
          (case writtenReport (outputs done) of
             None \<Rightarrow> None
           | Some rep \<Rightarrow>
               Some (r_totalFiles rep, r_processedFiles rep, r_skippedFiles rep, r_errorFiles rep)))"

text \<open>The part of \<open>run\<close> before \<open>generateReports\<close>: the statistics and the files copied.\<close>

definition runCore ::
  "config \<Rightarrow> 'm env \<Rightarrow> DatasetStats \<Rightarrow> error + DatasetStats \<times> written list" where
  "runCore cfg E s =
     (case (if existsSync E (outputPath cfg) then None else mkdirSync E (outputPath cfg)) of
        Some e \<Rightarrow> Inl e
      | None \<Rightarrow>
          (case findFiles (join E) (datasetPath cfg) (datasetTree E) of
             Inl e \<Rightarrow> Inl e
           | Inr files \<Rightarrow>
               Inr (copyCleanFiles cfg E (fst (snd (processFiles cfg E files s)))
                      (fst (processFiles cfg E files s), []))))"

text \<open>The \<open>errorFiles\<close> counter a finished run ends with.\<close>

definition errorFilesOf :: "error + 'm finished \<Rightarrow> nat option" where
  "errorFilesOf r = (case r of Inl e \<Rightarrow> None | Inr done \<Rightarrow> Some (errorFiles (finalStats done)))"





section \<open>Properties of the statistics\<close>

lemma recordFile_skipped:
  "recordFile m n ''skipped'' s =
     (s\<lparr> totalFiles := totalFiles s + 1, skippedFiles := skippedFiles s + 1 \<rparr>, None)"
  by (simp add: recordFile_def)

lemma recordFile_error:
  "recordFile m n ''error'' s =
     (s\<lparr> totalFiles := totalFiles s + 1, errorFiles := errorFiles s + 1 \<rparr>, None)"
  by (simp add: recordFile_def)

lemma recordFile_processed:
  "recordFile (Some m) n ''processed'' s =
     (recordProcessed m n
        (s\<lparr> totalFiles := totalFiles s + 1, processedFiles := processedFiles s + 1 \<rparr>), None)"
  by (simp add: recordFile_def)

lemma recordProcessed_counters:
  "totalFiles (recordProcessed m n s) = totalFiles s"
  "processedFiles (recordProcessed m n s) = processedFiles s"
  "skippedFiles (recordProcessed m n s) = skippedFiles s"
  "errorFiles (recordProcessed m n s) = errorFiles s"
  "errors (recordProcessed m n s) = errors s"
  by (simp_all add: recordProcessed_def Let_def)

lemma recordFile_step:
  assumes "known_status status"
  shows "totalFiles (fst (recordFile m n status s)) = totalFiles s + 1
       \<and> (processedFiles (fst (recordFile m n status s)),
          skippedFiles (fst (recordFile m n status s)),
          errorFiles (fst (recordFile m n status s)))
         = (if status = ''processed'' then (processedFiles s + 1, skippedFiles s, errorFiles s)
            else if status = ''skipped'' then (processedFiles s, skippedFiles s + 1, errorFiles s)
            else (processedFiles s, skippedFiles s, errorFiles s + 1))"
  using assms
  by (auto simp: recordFile_def known_status_def Let_def recordProcessed_counters
           split: option.splits)

lemma recordFile_balanced:
  "known_status status \<Longrightarrow> counters_balanced s
   \<Longrightarrow> counters_balanced (fst (recordFile m n status s))"
  using recordFile_step [of status m n s]
  by (auto simp: counters_balanced_def split: if_splits)

lemma recordFiles_invariant:
  "\<forall>c \<in> set calls. known_status (snd (snd c)) \<Longrightarrow> counters_balanced s \<Longrightarrow>
     counters_balanced (recordFiles calls s)
     \<and> totalFiles (recordFiles calls s) = totalFiles s + length calls"
proof (induction calls arbitrary: s)
  case Nil
  then show ?case by simp
next
  case (Cons c calls)
  obtain m n status where c: "c = (m, n, status)" by (cases c) auto
  from Cons.prems c have ks: "known_status status" by simp
  have b: "counters_balanced (fst (recordFile m n status s))"
    using ks Cons.prems(2) by (rule recordFile_balanced)
  have t: "totalFiles (fst (recordFile m n status s)) = totalFiles s + 1"
    using recordFile_step [OF ks] by simp
  from Cons.IH [OF _ b] Cons.prems(1) t c show ?case by simp
qed

lemma reset_balanced: "counters_balanced reset" "totalFiles reset = 0"
  by (simp_all add: counters_balanced_def reset_def)

lemma recordError_frame:
  "totalFiles (recordError f e s) = totalFiles s"
  "processedFiles (recordError f e s) = processedFiles s"
  "skippedFiles (recordError f e s) = skippedFiles s"
  "errorFiles (recordError f e s) = errorFiles s"
  by (simp_all add: recordError_def)

lemma caught_simps:
  "stats (caught p e s tr) =
     s\<lparr> totalFiles := totalFiles s + 1, errorFiles := errorFiles s + 1,
        errors := errors s @ [(p, message e)] \<rparr>"
  "result (caught p e s tr) = None"
  "trace (caught p e s tr) = tr"
  by (simp_all add: caught_def recordFile_error recordError_def)

lemma processFile_totalFiles:
  "totalFiles (stats (processFile cfg E p s)) = totalFiles s + 1"
  by (simp add: processFile_def Let_def caught_simps recordFile_skipped recordFile_error
        recordFile_processed recordProcessed_counters recordError_frame
      split: sum.splits option.splits prod.splits)

lemma processFile_balanced:
  "counters_balanced s \<Longrightarrow> counters_balanced (stats (processFile cfg E p s))"
  by (simp add: processFile_def Let_def caught_simps recordFile_skipped recordFile_error
        recordFile_processed recordProcessed_counters recordError_frame counters_balanced_def
      split: sum.splits option.splits prod.splits)

text \<open>
  Claim C7. After any sequence of \<open>recordFile\<close> calls on a fresh \<open>DatasetStats\<close>, each
  with status \<open>processed\<close>, \<open>skipped\<close> or \<open>error\<close>, \<open>totalFiles\<close> equals
  \<open>processedFiles + skippedFiles + errorFiles\<close> (and the number of calls); one such
  call adds one to \<open>totalFiles\<close> and one to exactly the counter its status names; and
  one \<open>processFile\<close> call, whatever branch it takes, adds exactly one to \<open>totalFiles\<close>
  and keeps the balance.
\<close>

theorem C7_counters_balanced:
  assumes "\<forall>c \<in> set calls. known_status (snd (snd c))" and "known_status status"
  shows "counters_balanced (recordFiles calls reset)
       \<and> totalFiles (recordFiles calls reset) = length calls
       \<and> totalFiles (fst (recordFile m n status s)) = totalFiles s + 1
       \<and> (processedFiles (fst (recordFile m n status s)),
          skippedFiles (fst (recordFile m n status s)),
          errorFiles (fst (recordFile m n status s)))
         = (if status = ''processed'' then (processedFiles s + 1, skippedFiles s, errorFiles s)
            else if status = ''skipped'' then (processedFiles s, skippedFiles s + 1, errorFiles s)
            else (processedFiles s, skippedFiles s, errorFiles s + 1))
       \<and> totalFiles (stats (processFile cfg E p s)) = totalFiles s + 1
       \<and> (counters_balanced s \<longrightarrow> counters_balanced (stats (processFile cfg E p s)))"
proof -
  have "counters_balanced (recordFiles calls reset)
        \<and> totalFiles (recordFiles calls reset) = totalFiles reset + length calls"
    using assms(1) reset_balanced(1) by (rule recordFiles_invariant)
  then show ?thesis
    using recordFile_step [OF assms(2), of m n s] processFile_totalFiles [of cfg E p s]
      processFile_balanced [of s cfg E p]
    by (simp add: reset_balanced(2))
qed

theorem C7_counters_balanced_witness:
  "list_all (\<lambda>c. known_status (snd (snd c))) demoCalls \<and> known_status ''error''
   \<and> counters_balanced reset
   \<and> totalFiles (recordFiles demoCalls reset) = 4
   \<and> processedFiles (recordFiles demoCalls reset) = 2
   \<and> skippedFiles (recordFiles demoCalls reset) = 1
   \<and> errorFiles (recordFiles demoCalls reset) = 1
   \<and> counters_balanced (recordFiles demoCalls reset)
   \<and> errorFiles (fst (recordFile None 0 ''error'' reset)) = 1
   \<and> counters_balanced (stats (processFile (demoConfig True)
        (demoEnv (flatTree []) [] ''t0'') ''data/t.txt'' reset))"
proof -
  have h1: "\<forall>c \<in> set demoCalls. known_status (snd (snd c))"
    by (simp add: demoCalls_def known_status_def)
  have h2: "known_status ''error''" by (simp add: known_status_def)
  have h3: "counters_balanced reset" by (simp add: counters_balanced_def reset_def)
  have v: "processedFiles (recordFiles demoCalls reset) = 2
   \<and> skippedFiles (recordFiles demoCalls reset) = 1
   \<and> errorFiles (recordFiles demoCalls reset) = 1"
    by (simp add: demoCalls_def demoObj_def reset_def recordFile_def recordProcessed_def)
  have l: "length demoCalls = 4" by (simp add: demoCalls_def)
  have e: "errorFiles reset = 0" by (simp add: reset_def)
  show ?thesis
    using C7_counters_balanced [OF h1 h2, of None 0 reset "demoConfig True"
        "demoEnv (flatTree []) [] ''t0''" "''data/t.txt''"] h1 h2 h3 v l e
    by (simp add: list_all_iff)
qed

section \<open>Properties of per-item processing\<close>

lemmas demo_simps =
  demoE_def demoEnv_def demoConfig_def demoFiles_def demoSidecars_def demoValidate_def
  posixJoin_def posixBasename_def posixDirname_def posixRelative_def flatTree_def
  processFile_def extractMetadata_def extractEmbedded_def endsWith_def caught_def
  recordFile_def recordError_def recordProcessed_def reset_def Let_def
  bump_def createOwn_def isArrayIndex_def isDigit_def inheritedText_def
  objectPrototypeMethods_def

lemma extractEmbedded_events:
  "set (snd (extractEmbedded E p)) \<subseteq> {ERead p, EHtmlExtract}"
  by (auto simp: extractEmbedded_def split: sum.splits if_splits)

lemma extractMetadata_events:
  "set (snd (extractMetadata E p))
     \<subseteq> {EExists (p @ ''.meta.xml''), ERead (p @ ''.meta.xml''), EParseXML, ERead p, EHtmlExtract}"
  using extractEmbedded_events [of E p]
  by (auto simp: extractMetadata_def Let_def split: sum.splits if_splits)

lemma extractMetadata_no_later_event:
  "EVerifyIntegrity \<notin> set (snd (extractMetadata E p))"
  "EOriginFilter \<notin> set (snd (extractMetadata E p))"
  "EValidate \<notin> set (snd (extractMetadata E p))"
  using extractMetadata_events [of E p] by auto

text \<open>
  Claim C5. When \<open>statSync\<close> reports a size above \<open>maxFileSize\<close>, \<open>processFile\<close> counts
  the item as skipped and returns \<open>null\<close>, and the only call it makes to the
  environment is that \<open>statSync\<close>: the trace holds nothing else, and the outcome is the
  same whatever \<open>existsSync\<close>, \<open>readFileSync\<close> and the two parsers would answer.
\<close>

theorem C5_oversize_skipped_before_reading:
  assumes "statSync E p = Inr fsize" and "maxFileSize cfg < fsize"
  shows "processFile cfg E p s =
           \<lparr> result = None,
             stats = s\<lparr> totalFiles := totalFiles s + 1, skippedFiles := skippedFiles s + 1 \<rparr>,
             trace = [EStat p] \<rparr>
       \<and> processFile cfg (E\<lparr> existsSync := ex, readFileSync := rd, parseXML := px,
                             htmlExtractMetadata := hx \<rparr>) p s
         = processFile cfg E p s"
  using assms by (simp add: processFile_def recordFile_skipped)

theorem C5_oversize_skipped_before_reading_witness:
  "statSync demoE ''data/big.txt'' = Inr 10 \<and> maxFileSize (demoConfig False) < 10
   \<and> existsSync demoE ''data/big.txt.meta.xml''
   \<and> result (processFile (demoConfig False) demoE ''data/big.txt'' reset) = None
   \<and> skippedFiles (stats (processFile (demoConfig False) demoE ''data/big.txt'' reset)) = 1
   \<and> trace (processFile (demoConfig False) demoE ''data/big.txt'' reset) = [EStat ''data/big.txt'']"
proof -
  have h1: "statSync demoE ''data/big.txt'' = Inr 10" by (simp add: demo_simps)
  have h2: "maxFileSize (demoConfig False) < 10" by (simp add: demo_simps)
  have h3: "existsSync demoE ''data/big.txt.meta.xml''" by (simp add: demo_simps)
  have h4: "skippedFiles reset = 0" by (simp add: reset_def)
  show ?thesis
    using C5_oversize_skipped_before_reading [OF h1 h2, of reset] h1 h2 h3 h4 by simp
qed

text \<open>
  Claim C4. For an item that passes the size and name checks, so that extraction
  runs: when extraction yields \<open>null\<close> the item is counted as skipped (and no error is
  recorded); when it yields a record that fails \<open>validate()\<close> the item is counted as
  an error, the pair of the item and \<open>Invalid metadata: \<close> followed by the violation is
  appended to the error list, and \<open>skippedFiles\<close> is untouched. Both return \<open>null\<close>.
\<close>

theorem C4_absent_skipped_malformed_errored:
  assumes "statSync E p = Inr fsize" and "fsize \<le> maxFileSize cfg"
    and "\<not> (\<exists>pattern \<in> set (excludePatterns cfg). includes_str (basename E p) pattern)"
  shows "(fst (extractMetadata E p) = None \<longrightarrow>
            result (processFile cfg E p s) = None
          \<and> stats (processFile cfg E p s)
            = s\<lparr> totalFiles := totalFiles s + 1, skippedFiles := skippedFiles s + 1 \<rparr>)
       \<and> (\<forall>m v. fst (extractMetadata E p) = Some m \<and> validate E m = Inr v \<and> \<not> isValid v \<longrightarrow>
            result (processFile cfg E p s) = None
          \<and> stats (processFile cfg E p s)
            = s\<lparr> totalFiles := totalFiles s + 1, errorFiles := errorFiles s + 1,
                 errors := errors s @ [(p, ''Invalid metadata: '' @ validationError v)] \<rparr>)"
  using assms
  by (simp add: processFile_def Let_def recordFile_skipped recordFile_error recordError_def)

theorem C4_absent_skipped_malformed_errored_witness:
  "statSync demoE ''data/c.txt'' = Inr 5 \<and> statSync demoE ''data/d.txt'' = Inr 5
   \<and> 5 \<le> maxFileSize (demoConfig False)
   \<and> fst (extractMetadata demoE ''data/c.txt'') = None
   \<and> fst (extractMetadata demoE ''data/d.txt'')
       = Some \<lparr> dm_origin = ''human'', dm_author = [], dm_hash = ''draft'' \<rparr>
   \<and> validate demoE \<lparr> dm_origin = ''human'', dm_author = [], dm_hash = ''draft'' \<rparr> = Inr demoInvalid
   \<and> stats (processFile (demoConfig False) demoE ''data/c.txt'' reset)
       = reset\<lparr> totalFiles := 1, skippedFiles := 1 \<rparr>
   \<and> stats (processFile (demoConfig False) demoE ''data/d.txt'' reset)
       = reset\<lparr> totalFiles := 1, errorFiles := 1,
           errors := [(''data/d.txt'', ''Invalid metadata: Missing required field: author'')] \<rparr>"
proof -
  have c1: "statSync demoE ''data/c.txt'' = Inr 5" by (simp add: demo_simps)
  have d1: "statSync demoE ''data/d.txt'' = Inr 5" by (simp add: demo_simps)
  have h2: "5 \<le> maxFileSize (demoConfig False)" by (simp add: demo_simps)
  have c3: "\<not> (\<exists>pattern \<in> set (excludePatterns (demoConfig False)).
               includes_str (basename demoE ''data/c.txt'') pattern)"
    by (simp add: demoConfig_def)
  have d3: "\<not> (\<exists>pattern \<in> set (excludePatterns (demoConfig False)).
               includes_str (basename demoE ''data/d.txt'') pattern)"
    by (simp add: demoConfig_def)
  have c4: "fst (extractMetadata demoE ''data/c.txt'') = None" by (simp add: demo_simps)
  have d4: "fst (extractMetadata demoE ''data/d.txt'')
       = Some \<lparr> dm_origin = ''human'', dm_author = [], dm_hash = ''draft'' \<rparr>"
    by (simp add: demo_simps)
  have d5: "validate demoE \<lparr> dm_origin = ''human'', dm_author = [], dm_hash = ''draft'' \<rparr>
            = Inr demoInvalid"
    by (simp add: demo_simps demoInvalid_def)
  have d6: "\<not> isValid demoInvalid"
    "validationError demoInvalid = ''Missing required field: author''"
    by (simp_all add: demoInvalid_def)
  have r: "totalFiles reset = 0" "skippedFiles reset = 0" "errorFiles reset = 0"
    "errors reset = []"
    by (simp_all add: reset_def)
  show ?thesis
    using C4_absent_skipped_malformed_errored [OF c1 h2 c3, of reset]
      C4_absent_skipped_malformed_errored [OF d1 h2 d3, of reset] c1 d1 h2 c4 d4 d5 d6 r
    by simp
qed

text \<open>
  Claim C6. An item whose extracted metadata validates and whose origin is not among
  \<open>allowedOrigins\<close> is counted as skipped and \<open>processFile\<close> returns \<open>null\<close>: for every
  size (an oversized item is skipped by the size check), every name and exclusion list,
  either setting of \<open>strictMode\<close>, and whatever \<open>verifyIntegrity\<close> would answer, which is
  never asked.
\<close>

theorem C6_disallowed_origin_skipped:
  assumes "statSync E p = Inr fsize" and "fst (extractMetadata E p) = Some m"
    and "validate E m = Inr v" and "isValid v"
    and "metadataOrigin E m \<notin> set (allowedOrigins cfg)"
  shows "result (processFile cfg E p s) = None
       \<and> stats (processFile cfg E p s)
         = s\<lparr> totalFiles := totalFiles s + 1, skippedFiles := skippedFiles s + 1 \<rparr>
       \<and> EVerifyIntegrity \<notin> set (trace (processFile cfg E p s))"
  using assms extractMetadata_no_later_event(1) [of E p]
  by (simp add: processFile_def Let_def recordFile_skipped)

theorem C6_disallowed_origin_skipped_witness:
  "statSync demoE ''data/u.txt'' = Inr 6
   \<and> fst (extractMetadata demoE ''data/u.txt'') = Some demoU
   \<and> validate demoE demoU = Inr \<lparr> isValid = True, validationError = [] \<rparr>
   \<and> metadataOrigin demoE demoU \<notin> set (allowedOrigins (demoConfig False))
   \<and> verifyIntegrity demoE demoU ''forged'' = Inr False
   \<and> result (processFile (demoConfig False) demoE ''data/u.txt'' reset) = None
   \<and> stats (processFile (demoConfig False) demoE ''data/u.txt'' reset)
       = reset\<lparr> totalFiles := 1, skippedFiles := 1 \<rparr>"
proof -
  have h1: "statSync demoE ''data/u.txt'' = Inr 6" by (simp add: demo_simps)
  have h2: "fst (extractMetadata demoE ''data/u.txt'') = Some demoU"
    by (simp add: demo_simps demoU_def)
  have h3: "validate demoE demoU = Inr \<lparr> isValid = True, validationError = [] \<rparr>"
    by (simp add: demo_simps demoU_def)
  have h4: "isValid \<lparr> isValid = True, validationError = [] \<rparr>" by simp
  have h5: "metadataOrigin demoE demoU \<notin> set (allowedOrigins (demoConfig False))"
    by (simp add: demo_simps demoU_def)
  have h6: "verifyIntegrity demoE demoU ''forged'' = Inr False"
    by (simp add: demo_simps demoU_def)
  have r: "totalFiles reset = 0" "skippedFiles reset = 0"
    by (simp_all add: reset_def)
  show ?thesis
    using C6_disallowed_origin_skipped [OF h1 h2 h3 h4 h5, of reset] h1 h2 h3 h5 h6 r by simp
qed

section \<open>Properties of the copy phase\<close>

lemmas run_simps =
  run_def generateReports_def getReport_def copyCleanFile_def isProcessableFile_def
  extensions_def exitStatus_def runReport_def

lemma copyCleanFile_counters:
  "totalFiles (fst (copyCleanFile cfg E item acc)) = totalFiles (fst acc)"
  "processedFiles (fst (copyCleanFile cfg E item acc)) = processedFiles (fst acc)"
  "skippedFiles (fst (copyCleanFile cfg E item acc)) = skippedFiles (fst acc)"
  "errorFiles (fst (copyCleanFile cfg E item acc)) = errorFiles (fst acc)"
  by (simp_all add: copyCleanFile_def Let_def recordError_def
      split: prod.splits option.splits sum.splits)

lemma copyCleanFiles_counters:
  "totalFiles (fst (copyCleanFiles cfg E items acc)) = totalFiles (fst acc)
   \<and> processedFiles (fst (copyCleanFiles cfg E items acc)) = processedFiles (fst acc)
   \<and> skippedFiles (fst (copyCleanFiles cfg E items acc)) = skippedFiles (fst acc)
   \<and> errorFiles (fst (copyCleanFiles cfg E items acc)) = errorFiles (fst acc)"
  by (induction items arbitrary: acc) (simp_all add: copyCleanFile_counters)

lemma demo_copy_failure_run:
  "\<exists>d rep. run (demoConfig False) demoFullE reset = Inr d \<and> writtenReport (outputs d) = Some rep
     \<and> r_errorFiles rep = 0
     \<and> r_errors rep = [(''data/a.txt'', ''ENOSPC: no space left on device'')]"
  by (simp add: demoFullE_def run_simps demo_simps)

text \<open>
  Claim C10. \<open>recordError\<close> appends the pair of the file and the error's message to
  \<open>errors\<close> and changes no other field. \<open>copyCleanFiles\<close> answers a failed write with
  \<open>recordError\<close> alone, so it never changes \<open>errorFiles\<close>, and there is a run whose
  written report lists more errors than \<open>errorFiles\<close> counts.
\<close>

theorem C10_recordError_frame:
  "errors (recordError f e s) = errors s @ [(f, message e)]
   \<and> totalFiles (recordError f e s) = totalFiles s
   \<and> processedFiles (recordError f e s) = processedFiles s
   \<and> skippedFiles (recordError f e s) = skippedFiles s
   \<and> errorFiles (recordError f e s) = errorFiles s
   \<and> originCounts (recordError f e s) = originCounts s
   \<and> authorCounts (recordError f e s) = authorCounts s
   \<and> licenseCounts (recordError f e s) = licenseCounts s
   \<and> toolchainCounts (recordError f e s) = toolchainCounts s
   \<and> sizeMin (recordError f e s) = sizeMin s
   \<and> sizeMax (recordError f e s) = sizeMax s
   \<and> sizeTotal (recordError f e s) = sizeTotal s
   \<and> ((existsSync E (dirname E (join E (outputPath cfg) (relative E (datasetPath cfg) p)))
        \<or> mkdirSync E (dirname E (join E (outputPath cfg) (relative E (datasetPath cfg) p))) = None)
       \<and> writeFileSync E (join E (outputPath cfg) (relative E (datasetPath cfg) p)) = Some e'
       \<longrightarrow> copyCleanFile cfg E (p, m, c) (s, out) = (recordError p e' s, out))
   \<and> errorFiles (fst (copyCleanFiles cfg E items (s, out))) = errorFiles s
   \<and> (\<exists>cfg' (E' :: demoMeta env) d rep.
         run cfg' E' reset = Inr d \<and> writtenReport (outputs d) = Some rep
         \<and> r_errorFiles rep < length (r_errors rep))"
proof -
  have ex: "\<exists>cfg' (E' :: demoMeta env) d rep.
         run cfg' E' reset = Inr d \<and> writtenReport (outputs d) = Some rep
         \<and> r_errorFiles rep < length (r_errors rep)"
    using demo_copy_failure_run by fastforce
  have cp: "(existsSync E (dirname E (join E (outputPath cfg) (relative E (datasetPath cfg) p)))
        \<or> mkdirSync E (dirname E (join E (outputPath cfg) (relative E (datasetPath cfg) p))) = None)
       \<and> writeFileSync E (join E (outputPath cfg) (relative E (datasetPath cfg) p)) = Some e'
       \<longrightarrow> copyCleanFile cfg E (p, m, c) (s, out) = (recordError p e' s, out)"
    by (auto simp: copyCleanFile_def Let_def)
  show ?thesis
    using ex cp copyCleanFiles_counters [of cfg E items "(s, out)"]
    by (simp add: recordError_def)
qed

theorem C10_recordError_frame_witness:
  "mkdirSync demoFullE ''out'' = None
   \<and> writeFileSync demoFullE ''out/a.txt'' = Some (Error ''ENOSPC: no space left on device'')
   \<and> copyCleanFile (demoConfig False) demoFullE (''data/a.txt'', demoA, ''hello'') (reset, [])
       = (recordError ''data/a.txt'' (Error ''ENOSPC: no space left on device'') reset, [])
   \<and> errorFiles (recordError ''data/a.txt'' (Error ''ENOSPC: no space left on device'') reset) = 0
   \<and> length (errors (recordError ''data/a.txt'' (Error ''ENOSPC: no space left on device'') reset)) = 1"
proof -
  have p: "join demoFullE (outputPath (demoConfig False))
             (relative demoFullE (datasetPath (demoConfig False)) ''data/a.txt'') = ''out/a.txt''"
    by (simp add: demoFullE_def demo_simps)
  have d: "dirname demoFullE ''out/a.txt'' = ''out''"
    by (simp add: demoFullE_def demo_simps)
  have h1: "mkdirSync demoFullE ''out'' = None" by (simp add: demoFullE_def demo_simps)
  have h2: "writeFileSync demoFullE ''out/a.txt'' = Some (Error ''ENOSPC: no space left on device'')"
    by (simp add: demoFullE_def demo_simps)
  have r: "errorFiles reset = 0" "errors reset = []" by (simp_all add: reset_def)
  show ?thesis
    using C10_recordError_frame [where f = "''data/a.txt''"
        and e = "Error ''ENOSPC: no space left on device''" and s = reset
        and E = demoFullE and cfg = "demoConfig False" and p = "''data/a.txt''"
        and e' = "Error ''ENOSPC: no space left on device''" and m = demoA and c = "''hello''"
        and out = "[]" and items = "[]"]
      p d h1 h2 r
    by simp
qed
section \<open>Integrity mismatch under the two modes\<close>

lemma processFile_result_state:
  "result (processFile cfg E p s) = result (processFile cfg E p s')"
  by (simp add: processFile_def Let_def caught_simps recordFile_processed
      split: sum.splits option.splits)

lemma processFile_result_path:
  "result (processFile cfg E p s) = Some (q, m, c) \<Longrightarrow> q = p"
  by (simp add: processFile_def Let_def caught_simps recordFile_processed
      split: sum.splits option.splits if_splits)

lemma processFiles_results:
  "set (fst (snd (processFiles cfg E files s)))
   = {r. \<exists>f \<in> set files. result (processFile cfg E f s0) = Some r}"
proof (induction files arbitrary: s)
  case Nil
  then show ?case by simp
next
  case (Cons f files)
  have "result (processFile cfg E f s) = result (processFile cfg E f s0)"
    by (rule processFile_result_state)
  with Cons.IH [of "stats (processFile cfg E f s)"] show ?case
    by (auto simp: Let_def split: option.splits)
qed

lemma copyCleanFile_grows:
  "set (snd acc) \<subseteq> set (snd (copyCleanFile cfg E item acc))"
  by (auto simp: copyCleanFile_def Let_def split: prod.splits option.splits sum.splits)

lemma copyCleanFiles_grows:
  "set (snd acc) \<subseteq> set (snd (copyCleanFiles cfg E items acc))"
proof (induction items arbitrary: acc)
  case Nil
  then show ?case by simp
next
  case (Cons item items)
  show ?case
    using copyCleanFile_grows [of acc cfg E item] Cons.IH [of "copyCleanFile cfg E item acc"]
    by auto
qed

lemma copyCleanFile_writes:
  assumes "existsSync E (dirname E (outPathOf cfg E p)) \<or> mkdirSync E (dirname E (outPathOf cfg E p)) = None"
    and "writeFileSync E (outPathOf cfg E p) = None"
  shows "ContentFile (outPathOf cfg E p) c \<in> set (snd (copyCleanFile cfg E (p, m, c) acc))"
  using assms
  by (auto simp: copyCleanFile_def outPathOf_def Let_def split: prod.splits option.splits sum.splits)

lemma copyCleanFiles_writes:
  assumes "(p, m, c) \<in> set items"
    and "existsSync E (dirname E (outPathOf cfg E p)) \<or> mkdirSync E (dirname E (outPathOf cfg E p)) = None"
    and "writeFileSync E (outPathOf cfg E p) = None"
  shows "ContentFile (outPathOf cfg E p) c \<in> set (snd (copyCleanFiles cfg E items acc))"
  using assms(1)
proof (induction items arbitrary: acc)
  case Nil
  then show ?case by simp
next
  case (Cons item items)
  show ?case
  proof (cases "item = (p, m, c)")
    case True
    have "ContentFile (outPathOf cfg E p) c \<in> set (snd (copyCleanFile cfg E (p, m, c) acc))"
      using assms(2,3) by (rule copyCleanFile_writes)
    then show ?thesis
      using True copyCleanFiles_grows [of "copyCleanFile cfg E item acc" cfg E items] by auto
  next
    case False
    with Cons.prems have "(p, m, c) \<in> set items" by simp
    then show ?thesis using Cons.IH by simp
  qed
qed

lemma run_finished:
  assumes "run cfg E s0 = Inr d"
    and "findFiles (join E) (datasetPath cfg) (datasetTree E) = Inr files"
  shows "processedFilesList d = fst (snd (processFiles cfg E files s0))"
    and "set (snd (copyCleanFiles cfg E (processedFilesList d)
                 (fst (processFiles cfg E files s0), []))) \<subseteq> set (outputs d)"
  using assms
  by (auto simp: run_def Let_def generateReports_def split: option.splits sum.splits if_splits)

text \<open>
  Claim C3, as amended. For an item that reaches integrity verification (extraction
  ran, the metadata validates, and its origin is among \<open>allowedOrigins\<close>) and
  whose content does not match the recorded hash: the item is counted as an error and
  the pair of the item and \<open>Content integrity check failed\<close> is recorded, in both
  modes. In strict mode \<open>processFile\<close> returns \<open>null\<close> and a finished run hands no
  entry for the item to \<open>copyCleanFiles\<close>; in lenient mode it returns the triple of
  path, metadata and content, the run hands it to \<open>copyCleanFiles\<close>, and the content is
  written under the output root whenever the directory and the write succeed.
\<close>

theorem C3_tampered_strict_lenient:
  assumes "statSync E p = Inr fsize" and "fsize \<le> maxFileSize cfg"
    and "\<not> (\<exists>pattern \<in> set (excludePatterns cfg). includes_str (basename E p) pattern)"
    and "fst (extractMetadata E p) = Some m" and "validate E m = Inr v" and "isValid v"
    and "metadataOrigin E m \<in> set (allowedOrigins cfg)"
    and "readFileSync E p = Inr content" and "verifyIntegrity E m content = Inr False"
  shows "stats (processFile cfg E p s)
         = s\<lparr> totalFiles := totalFiles s + 1, errorFiles := errorFiles s + 1,
              errors := errors s @ [(p, ''Content integrity check failed'')] \<rparr>
       \<and> result (processFile cfg E p s)
         = (if strictMode cfg then None else Some (p, m, content))
       \<and> (\<forall>d files. run cfg E s0 = Inr d
             \<and> findFiles (join E) (datasetPath cfg) (datasetTree E) = Inr files
             \<and> p \<in> set files \<longrightarrow>
            (if strictMode cfg then (\<forall>m' c'. (p, m', c') \<notin> set (processedFilesList d))
             else (p, m, content) \<in> set (processedFilesList d)
                \<and> ((existsSync E (dirname E (outPathOf cfg E p))
                     \<or> mkdirSync E (dirname E (outPathOf cfg E p)) = None)
                    \<and> writeFileSync E (outPathOf cfg E p) = None
                    \<longrightarrow> ContentFile (outPathOf cfg E p) content \<in> set (outputs d))))"
proof -
  have res: "result (processFile cfg E p s')
         = (if strictMode cfg then None else Some (p, m, content))" for s'
    using assms by (simp add: processFile_def Let_def)
  have st: "stats (processFile cfg E p s)
         = s\<lparr> totalFiles := totalFiles s + 1, errorFiles := errorFiles s + 1,
              errors := errors s @ [(p, ''Content integrity check failed'')] \<rparr>"
    using assms by (simp add: processFile_def Let_def recordFile_error recordError_def)
  have runlevel: "(if strictMode cfg then (\<forall>m' c'. (p, m', c') \<notin> set (processedFilesList d))
             else (p, m, content) \<in> set (processedFilesList d)
                \<and> ((existsSync E (dirname E (outPathOf cfg E p))
                     \<or> mkdirSync E (dirname E (outPathOf cfg E p)) = None)
                    \<and> writeFileSync E (outPathOf cfg E p) = None
                    \<longrightarrow> ContentFile (outPathOf cfg E p) content \<in> set (outputs d)))"
    if r: "run cfg E s0 = Inr d"
      and f: "findFiles (join E) (datasetPath cfg) (datasetTree E) = Inr files"
      and pin: "p \<in> set files" for d files
  proof -
    have lst: "set (processedFilesList d)
               = {r. \<exists>f \<in> set files. result (processFile cfg E f reset) = Some r}"
      using run_finished(1) [OF r f] processFiles_results [of cfg E files s0 reset] by simp
    show ?thesis
    proof (cases "strictMode cfg")
      case True
      have "(p, m', c') \<notin> set (processedFilesList d)" for m' c'
      proof
        assume "(p, m', c') \<in> set (processedFilesList d)"
        then obtain f where "f \<in> set files" and rf: "result (processFile cfg E f reset) = Some (p, m', c')"
          using lst by auto
        from processFile_result_path [OF rf] have "f = p" by simp
        with rf res [of reset] True show False by simp
      qed
      with True show ?thesis by simp
    next
      case False
      have mem: "(p, m, content) \<in> set (processedFilesList d)"
        using lst pin res [of reset] False by auto
      have "ContentFile (outPathOf cfg E p) content \<in> set (outputs d)"
        if "existsSync E (dirname E (outPathOf cfg E p))
                     \<or> mkdirSync E (dirname E (outPathOf cfg E p)) = None"
          and "writeFileSync E (outPathOf cfg E p) = None"
        using copyCleanFiles_writes [OF mem that] run_finished(2) [OF r f] by blast
      with mem False show ?thesis by simp
    qed
  qed
  from res [of s] st runlevel show ?thesis by blast
qed

text \<open>
  The claim as first stated covers every item with valid metadata and a mismatching
  hash. The item \<open>data/u.txt\<close> is one, with origin \<open>ai\<close>: in strict mode it is counted
  as skipped by the origin filter, and no error is counted or recorded.
\<close>

theorem C3_tampered_strict_lenient_counterexample:
  "strictMode (demoConfig True)
   \<and> statSync demoE ''data/u.txt'' = Inr 6
   \<and> fst (extractMetadata demoE ''data/u.txt'') = Some demoU
   \<and> validate demoE demoU = Inr demoValid \<and> isValid demoValid
   \<and> readFileSync demoE ''data/u.txt'' = Inr ''forged''
   \<and> verifyIntegrity demoE demoU ''forged'' = Inr False
   \<and> stats (processFile (demoConfig True) demoE ''data/u.txt'' reset)
       = reset\<lparr> totalFiles := 1, skippedFiles := 1 \<rparr>
   \<and> errorFiles (stats (processFile (demoConfig True) demoE ''data/u.txt'' reset)) = 0
   \<and> errors (stats (processFile (demoConfig True) demoE ''data/u.txt'' reset)) = []"
  by (simp add: demo_simps demoU_def demoValid_def)

lemma demo_tampered_run:
  "\<exists>d. run (demoConfig False) demoTamperedE reset = Inr d
     \<and> outputs d ! 0 = ContentFile ''out/t.txt'' ''edited''"
  by (simp add: demoTamperedE_def run_simps demo_simps)

theorem C3_tampered_strict_lenient_witness:
  "statSync demoTamperedE ''data/t.txt'' = Inr 6 \<and> 6 \<le> maxFileSize (demoConfig False)
   \<and> fst (extractMetadata demoTamperedE ''data/t.txt'') = Some demoT
   \<and> validate demoTamperedE demoT = Inr demoValid \<and> isValid demoValid
   \<and> metadataOrigin demoTamperedE demoT \<in> set (allowedOrigins (demoConfig False))
   \<and> readFileSync demoTamperedE ''data/t.txt'' = Inr ''edited''
   \<and> verifyIntegrity demoTamperedE demoT ''edited'' = Inr False
   \<and> result (processFile (demoConfig True) demoTamperedE ''data/t.txt'' reset) = None
   \<and> result (processFile (demoConfig False) demoTamperedE ''data/t.txt'' reset)
       = Some (''data/t.txt'', demoT, ''edited'')
   \<and> stats (processFile (demoConfig True) demoTamperedE ''data/t.txt'' reset)
       = reset\<lparr> totalFiles := 1, errorFiles := 1,
                errors := [(''data/t.txt'', ''Content integrity check failed'')] \<rparr>
   \<and> (\<exists>d. run (demoConfig False) demoTamperedE reset = Inr d
          \<and> (''data/t.txt'', demoT, ''edited'') \<in> set (processedFilesList d)
          \<and> ContentFile ''out/t.txt'' ''edited'' \<in> set (outputs d))"
proof -
  have h1: "statSync demoTamperedE ''data/t.txt'' = Inr 6"
    by (simp add: demoTamperedE_def demo_simps)
  have h2: "6 \<le> maxFileSize (demoConfig b)" for b by (simp add: demoConfig_def)
  have h3: "\<not> (\<exists>pattern \<in> set (excludePatterns (demoConfig b)).
               includes_str (basename demoTamperedE ''data/t.txt'') pattern)" for b
    by (simp add: demoConfig_def)
  have h4: "fst (extractMetadata demoTamperedE ''data/t.txt'') = Some demoT"
    by (simp add: demoTamperedE_def demo_simps demoT_def)
  have h5: "validate demoTamperedE demoT = Inr demoValid"
    by (simp add: demoTamperedE_def demo_simps demoT_def demoValid_def)
  have h6: "isValid demoValid" by (simp add: demoValid_def)
  have h7: "metadataOrigin demoTamperedE demoT \<in> set (allowedOrigins (demoConfig b))" for b
    by (simp add: demoTamperedE_def demo_simps demoT_def)
  have h8: "readFileSync demoTamperedE ''data/t.txt'' = Inr ''edited''"
    by (simp add: demoTamperedE_def demo_simps)
  have h9: "verifyIntegrity demoTamperedE demoT ''edited'' = Inr False"
    by (simp add: demoTamperedE_def demo_simps demoT_def)
  have r: "totalFiles reset = 0" "errorFiles reset = 0" "errors reset = []"
    by (simp_all add: reset_def)
  have sm: "strictMode (demoConfig b) = b" for b by (simp add: demoConfig_def)
  have ff: "findFiles (join demoTamperedE) (datasetPath (demoConfig False))
              (datasetTree demoTamperedE) = Inr [''data/t.txt'']"
    by (simp add: demoTamperedE_def demo_simps run_simps)
  have op: "outPathOf (demoConfig False) demoTamperedE ''data/t.txt'' = ''out/t.txt''"
    by (simp add: outPathOf_def demoTamperedE_def demo_simps)
  have mk: "mkdirSync demoTamperedE ''out'' = None" "dirname demoTamperedE ''out/t.txt'' = ''out''"
    "writeFileSync demoTamperedE ''out/t.txt'' = None"
    by (simp_all add: demoTamperedE_def demo_simps)
  obtain d where d: "run (demoConfig False) demoTamperedE reset = Inr d"
    using demo_tampered_run by blast
  note strict = C3_tampered_strict_lenient [OF h1 h2 h3 h4 h5 h6 h7 h8 h9, of True reset reset]
  note lenient = C3_tampered_strict_lenient [OF h1 h2 h3 h4 h5 h6 h7 h8 h9, of False reset reset]
  from lenient d ff op mk sm
  have "(''data/t.txt'', demoT, ''edited'') \<in> set (processedFilesList d)
          \<and> ContentFile ''out/t.txt'' ''edited'' \<in> set (outputs d)"
    by simp
  with d have ex: "\<exists>d. run (demoConfig False) demoTamperedE reset = Inr d
          \<and> (''data/t.txt'', demoT, ''edited'') \<in> set (processedFilesList d)
          \<and> ContentFile ''out/t.txt'' ''edited'' \<in> set (outputs d)"
    by blast
  show ?thesis
    using strict lenient ex h1 h2 h4 h5 h6 h7 h8 h9 r sm by simp
qed

section \<open>The order of the per-item steps\<close>

















section \<open>The completion status\<close>

text \<open>
  Claim C1, as amended. The completion status is 0 or 1, and it is 0 exactly when
  \<open>run\<close> itself does not throw: the output directory exists or can be created,
  discovery returns a list, and the report and the manifest can be written. Strict
  mode has no part in it: the status is the same with \<open>strictMode\<close> set either way,
  whatever the items' outcomes.
\<close>

theorem C1_exit_status_run_level_only:
  "(exitStatus (run cfg E s) = 0 \<or> exitStatus (run cfg E s) = 1)
   \<and> (exitStatus (run cfg E s) = 0) =
       ((existsSync E (outputPath cfg) \<or> mkdirSync E (outputPath cfg) = None)
        \<and> (\<exists>files. findFiles (join E) (datasetPath cfg) (datasetTree E) = Inr files)
        \<and> writeFileSync E (join E (outputPath cfg) ''processing-report.json'') = None
        \<and> writeFileSync E (join E (outputPath cfg) ''dataset-manifest.json'') = None)
   \<and> exitStatus (run (cfg\<lparr> strictMode := b \<rparr>) E s) = exitStatus (run cfg E s)"
proof -
  have a: "exitStatus (run cfg E s) = 0 \<or> exitStatus (run cfg E s) = 1"
    by (simp add: exitStatus_def split: sum.split)
  have b: "(exitStatus (run c E s) = 0) =
       ((existsSync E (outputPath c) \<or> mkdirSync E (outputPath c) = None)
        \<and> (\<exists>files. findFiles (join E) (datasetPath c) (datasetTree E) = Inr files)
        \<and> writeFileSync E (join E (outputPath c) ''processing-report.json'') = None
        \<and> writeFileSync E (join E (outputPath c) ''dataset-manifest.json'') = None)" for c
    by (auto simp: run_def exitStatus_def generateReports_def Let_def
        split: sum.splits option.splits if_splits)
  have c: "exitStatus (run (cfg\<lparr> strictMode := b \<rparr>) E s) = exitStatus (run cfg E s)"
    using a b [of cfg] b [of "cfg\<lparr> strictMode := b \<rparr>"]
      by (cases "exitStatus (run cfg E s) = 0") (auto simp: exitStatus_def split: sum.splits)
  from a b [of cfg] c show ?thesis by blast
qed

lemma demo_strict_run:
  "\<exists>d. run (demoConfig True) demoTamperedE reset = Inr d
       \<and> errorFiles (finalStats d) = 1 \<and> processedFilesList d = []"
  by (simp add: demoTamperedE_def run_simps demo_simps)

text \<open>
  The claim as first stated asks for a non-zero status in strict mode when an item
  has errored. The run over the tampered item \<open>data/t.txt\<close> in strict mode counts one
  error and ends with status 0.
\<close>

theorem C1_exit_status_run_level_only_counterexample:
  "strictMode (demoConfig True)
   \<and> errorFilesOf (run (demoConfig True) demoTamperedE reset) = Some 1
   \<and> exitStatus (run (demoConfig True) demoTamperedE reset) = 0"
  using demo_strict_run by (auto simp: exitStatus_def errorFilesOf_def demoConfig_def)

theorem C1_exit_status_run_level_only_witness:
  "existsSync demoNoReportE ''out'' = False \<and> mkdirSync demoNoReportE ''out'' = None
   \<and> findFiles (join demoNoReportE) ''data'' (datasetTree demoNoReportE) = Inr [''data/a.txt'']
   \<and> writeFileSync demoNoReportE ''out/processing-report.json''
       = Some (Error ''ENOSPC: no space left on device'')
   \<and> strictMode (demoConfig False) = False
   \<and> exitStatus (run (demoConfig False) demoNoReportE reset) = 1
   \<and> exitStatus (run (demoConfig True) demoTamperedE reset) = 0"
proof -
  have p: "outputPath (demoConfig b) = ''out''" "datasetPath (demoConfig b) = ''data''"
    "strictMode (demoConfig b) = b" for b
    by (simp_all add: demoConfig_def)
  have j: "join demoNoReportE ''out'' ''processing-report.json'' = ''out/processing-report.json''"
    "join demoTamperedE ''out'' ''processing-report.json'' = ''out/processing-report.json''"
    "join demoTamperedE ''out'' ''dataset-manifest.json'' = ''out/dataset-manifest.json''"
    by (simp_all add: demoNoReportE_def demoTamperedE_def demoEnv_def posixJoin_def)
  have e: "existsSync demoNoReportE ''out'' = False" "mkdirSync demoNoReportE ''out'' = None"
    "mkdirSync demoTamperedE ''out'' = None"
    "writeFileSync demoNoReportE ''out/processing-report.json''
       = Some (Error ''ENOSPC: no space left on device'')"
    "writeFileSync demoTamperedE ''out/processing-report.json'' = None"
    "writeFileSync demoTamperedE ''out/dataset-manifest.json'' = None"
    by (simp_all add: demoNoReportE_def demoTamperedE_def demoEnv_def demoFiles_def)
  have f: "findFiles (join demoNoReportE) ''data'' (datasetTree demoNoReportE) = Inr [''data/a.txt'']"
    "findFiles (join demoTamperedE) ''data'' (datasetTree demoTamperedE) = Inr [''data/t.txt'']"
    by (simp_all add: demoNoReportE_def demoTamperedE_def demo_simps run_simps)
  show ?thesis
    using C1_exit_status_run_level_only [where cfg = "demoConfig False" and E = demoNoReportE
        and s = reset and b = False]
      C1_exit_status_run_level_only [where cfg = "demoConfig True" and E = demoTamperedE
        and s = reset and b = True] p j e f
    by auto
qed

section \<open>Properties of discovery\<close>

lemma entryBelow_Nil: "\<not> entryBelow j d (Directory []) p n k"
  by (auto elim: entryBelow.cases)

lemma entryBelow_Cons:
  "entryBelow j d (Directory ((item, node) # rest)) p n k =
     ((\<exists>k'. node = NonDirectory k' \<and> p = j d item \<and> n = item \<and> k = k')
      \<or> (\<exists>sub. node = Directory sub \<and> entryBelow j (j d item) (Directory sub) p n k)
      \<or> entryBelow j d (Directory rest) p n k)"
proof
  assume "entryBelow j d (Directory ((item, node) # rest)) p n k"
  then show "(\<exists>k'. node = NonDirectory k' \<and> p = j d item \<and> n = item \<and> k = k')
      \<or> (\<exists>sub. node = Directory sub \<and> entryBelow j (j d item) (Directory sub) p n k)
      \<or> entryBelow j d (Directory rest) p n k"
    by (cases rule: entryBelow.cases) (auto intro: entryBelow.intros)
next
  assume "(\<exists>k'. node = NonDirectory k' \<and> p = j d item \<and> n = item \<and> k = k')
      \<or> (\<exists>sub. node = Directory sub \<and> entryBelow j (j d item) (Directory sub) p n k)
      \<or> entryBelow j d (Directory rest) p n k"
  then show "entryBelow j d (Directory ((item, node) # rest)) p n k"
  proof (elim disjE exE conjE)
    fix k' assume "node = NonDirectory k'" "p = j d item" "n = item" "k = k'"
    then show ?thesis by (auto intro: entryBelow.direct)
  next
    fix sub assume "node = Directory sub" "entryBelow j (j d item) (Directory sub) p n k"
    then show ?thesis by (auto intro: entryBelow.nested)
  next
    assume "entryBelow j d (Directory rest) p n k"
    then show ?thesis
      by (cases rule: entryBelow.cases) (auto intro: entryBelow.intros)
  qed
qed

lemma entryBelow_not_directory:
  "\<not> entryBelow j d (UnreadableDirectory e) p n k"
  "\<not> entryBelow j d (NonDirectory k') p n k"
  "\<not> entryBelow j d (StatFails e) p n k"
  by (auto elim: entryBelow.cases)

lemma below_NonDirectory:
  "{p. \<exists>n k. entryBelow j d (Directory ((item, NonDirectory kk) # rest)) p n k \<and> isProcessableFile n}
   = set (if isProcessableFile item then [j d item] else [])
     \<union> {p. \<exists>n k. entryBelow j d (Directory rest) p n k \<and> isProcessableFile n}"
  unfolding entryBelow_Cons by (cases "isProcessableFile item") (simp_all, blast+)

lemma below_Directory:
  "{p. \<exists>n k. entryBelow j d (Directory ((item, Directory sub) # rest)) p n k \<and> isProcessableFile n}
   = {p. \<exists>n k. entryBelow j (j d item) (Directory sub) p n k \<and> isProcessableFile n}
     \<union> {p. \<exists>n k. entryBelow j d (Directory rest) p n k \<and> isProcessableFile n}"
  unfolding entryBelow_Cons by (simp, blast)

lemma findFiles_members:
  "(findFiles j d node = Inr files \<longrightarrow>
       set files = {p. \<exists>n k. entryBelow j d node p n k \<and> isProcessableFile n})"
  "(findItems j d items = Inr files \<longrightarrow>
       set files = {p. \<exists>n k. entryBelow j d (Directory items) p n k \<and> isProcessableFile n})"
proof (induction j d node and j d items arbitrary: files and files rule: findFiles_findItems.induct)
  case (1 j directory items)
  then show ?case by simp
next
  case (5 j directory)
  then show ?case by (simp add: entryBelow_Nil)
next
  case (7 j directory item k rest)
  show ?case
  proof
    assume "findItems j directory ((item, NonDirectory k) # rest) = Inr files"
    then obtain more where m: "findItems j directory rest = Inr more"
      and f: "files = (if isProcessableFile item then [j directory item] else []) @ more"
      by (auto split: sum.splits)
    from "7.IH" [of more] m
    have "set more = {p. \<exists>n kk. entryBelow j directory (Directory rest) p n kk \<and> isProcessableFile n}"
      by simp
    with f show "set files = {p. \<exists>n kk. entryBelow j directory (Directory ((item, NonDirectory k) # rest)) p n kk
                        \<and> isProcessableFile n}"
      unfolding below_NonDirectory by simp
  qed
next
  case (8 j directory item sub rest)
  show ?case
  proof
    assume "findItems j directory ((item, Directory sub) # rest) = Inr files"
    then obtain found more where s: "findFiles j (j directory item) (Directory sub) = Inr found"
      and m: "findItems j directory rest = Inr more" and f: "files = found @ more"
      by (auto split: sum.splits)
    from "8.IH"(1) [of found] s
    have a: "set found = {p. \<exists>n kk. entryBelow j (j directory item) (Directory sub) p n kk
                             \<and> isProcessableFile n}"
      by simp
    from "8.IH"(2) [OF s, of more] m
    have b: "set more = {p. \<exists>n kk. entryBelow j directory (Directory rest) p n kk \<and> isProcessableFile n}"
      by simp
    from a b f show "set files = {p. \<exists>n kk. entryBelow j directory (Directory ((item, Directory sub) # rest)) p n kk
                        \<and> isProcessableFile n}"
      unfolding below_Directory by simp
  qed
qed (simp_all add: entryBelow_not_directory)

lemma findItems_concat:
  "findItems j d items = Inr files \<Longrightarrow> files = concat (map (contribution j d) items)"
proof (induction items arbitrary: files)
  case Nil
  then show ?case by simp
next
  case (Cons x items)
  obtain item node where x: "x = (item, node)" by (cases x)
  show ?case using Cons x
    by (cases node) (auto split: sum.splits)
qed

lemma findItems_flat:
  "list_all (\<lambda>x. isNonDirectory (snd x)) items \<Longrightarrow>
     findItems j d items = Inr (map (j d) (filter isProcessableFile (map fst items)))"
proof (induction items)
  case Nil
  then show ?case by simp
next
  case (Cons x items)
  obtain item node where x: "x = (item, node)" by (cases x)
  show ?case using Cons x by (cases node) auto
qed

lemma endsWith_suffix: "endsWith s suf = suffix suf s"
proof
  assume "endsWith s suf"
  then have "s = take (length s - length suf) s @ suf"
    by (simp add: endsWith_def) (metis append_take_drop_id)
  then show "suffix suf s" by (rule suffixI)
next
  assume "suffix suf s"
  then obtain zs where "s = zs @ suf" by (auto simp: suffix_def)
  then show "endsWith s suf" by (simp add: endsWith_def)
qed

lemma processable_not_sidecar:
  assumes "\<exists>ext \<in> set extensions. endsWith n ext"
  shows "\<not> endsWith n ''.meta.xml''"
proof
  assume x: "endsWith n ''.meta.xml''"
  from assms obtain ext where e: "ext \<in> set extensions" and s: "endsWith n ext" by blast
  from s x have "suffix ext ''.meta.xml'' \<or> suffix ''.meta.xml'' ext"
    by (simp add: endsWith_suffix suffix_same_cases)
  with e show False
    by (auto simp: extensions_def suffix_def Cons_eq_append_conv append_eq_Cons_conv)
qed

lemma directFiles_simps:
  "directFiles [] = []"
  "directFiles ((item, NonDirectory k) # rest)
     = (if isProcessableFile item then item # directFiles rest else directFiles rest)"
  "directFiles ((item, Directory sub) # rest) = directFiles rest"
  "directFiles ((item, UnreadableDirectory e) # rest) = directFiles rest"
  "directFiles ((item, StatFails e) # rest) = directFiles rest"
  by (simp_all add: directFiles_def)

lemma findItems_direct_subseq:
  "findItems j d items = Inr files \<Longrightarrow> subseq (map (j d) (directFiles items)) files"
proof (induction items arbitrary: files)
  case Nil
  then show ?case by (simp add: directFiles_simps)
next
  case (Cons x items)
  obtain item node where x: "x = (item, node)" by (cases x)
  show ?case
  proof (cases node)
    case (Directory sub)
    with Cons.prems x obtain found more where
      m: "findItems j d items = Inr more" and f: "files = found @ more"
      by (auto split: sum.splits)
    from Cons.IH [OF m] have "subseq (map (j d) (directFiles items)) (found @ more)"
      by (rule list_emb_append2)
    with f x Directory show ?thesis by (simp add: directFiles_simps)
  next
    case (NonDirectory k)
    with Cons.prems x obtain more where
      m: "findItems j d items = Inr more"
      and f: "files = (if isProcessableFile item then [j d item] else []) @ more"
      by (auto split: sum.splits)
    from Cons.IH [OF m] f x NonDirectory show ?thesis
      by (simp add: directFiles_simps)
  next
    case (UnreadableDirectory e)
    with Cons.prems x show ?thesis by simp
  next
    case (StatFails e)
    with Cons.prems x show ?thesis by simp
  qed
qed

lemma findItems_subdirectory:
  "findItems j d items = Inr files \<Longrightarrow> (item, Directory sub) \<in> set items \<Longrightarrow>
     \<exists>found. findFiles j (j d item) (Directory sub) = Inr found \<and> subseq found files"
proof (induction items arbitrary: files)
  case Nil
  then show ?case by simp
next
  case (Cons x items)
  obtain item' node where x: "x = (item', node)" by (cases x)
  show ?case
  proof (cases node)
    case (Directory sub')
    with Cons.prems(1) x obtain found more where
      s: "findFiles j (j d item') (Directory sub') = Inr found"
      and m: "findItems j d items = Inr more" and f: "files = found @ more"
      by (auto split: sum.splits)
    show ?thesis
    proof (cases "(item, Directory sub) = x")
      case True
      with x Directory s f show ?thesis by auto
    next
      case False
      with Cons.prems(2) have "(item, Directory sub) \<in> set items" by simp
      from Cons.IH [OF m this] obtain fnd where
        "findFiles j (j d item) (Directory sub) = Inr fnd" "subseq fnd more" by blast
      with f show ?thesis by (auto intro: list_emb_append2)
    qed
  next
    case (NonDirectory k)
    with Cons.prems(1) x obtain more where
      m: "findItems j d items = Inr more"
      and f: "files = (if isProcessableFile item' then [j d item'] else []) @ more"
      by (auto split: sum.splits)
    from Cons.prems(2) x NonDirectory have "(item, Directory sub) \<in> set items" by auto
    from Cons.IH [OF m this] obtain fnd where
      "findFiles j (j d item) (Directory sub) = Inr fnd" "subseq fnd more" by blast
    with f show ?thesis by (auto intro: list_emb_append2)
  next
    case (UnreadableDirectory e)
    with Cons.prems x show ?thesis by simp
  next
    case (StatFails e)
    with Cons.prems x show ?thesis by simp
  qed
qed

lemma dirBelow_found:
  "dirBelow j d node dp items \<Longrightarrow> findFiles j d node = Inr files \<Longrightarrow>
     \<exists>found. findItems j dp items = Inr found \<and> subseq found files"
proof (induction arbitrary: files rule: dirBelow.induct)
  case (top d items)
  then show ?case by auto
next
  case (deeper item sub items d dp its)
  from deeper.prems have "findItems j d items = Inr files" by simp
  from findItems_subdirectory [OF this deeper.hyps(1)] obtain fnd where
    a: "findFiles j (j d item) (Directory sub) = Inr fnd" and b: "subseq fnd files" by blast
  from deeper.IH [OF a] obtain found where
    "findItems j dp its = Inr found" "subseq found fnd" by blast
  with b show ?case by (auto intro: subseq_order.trans)
qed

lemma dirBelow_direct_subseq:
  assumes "dirBelow j d node dp items" and "findFiles j d node = Inr files"
  shows "subseq (map (j dp) (directFiles items)) files"
proof -
  from dirBelow_found [OF assms] obtain found where
    a: "findItems j dp items = Inr found" and b: "subseq found files" by blast
  from findItems_direct_subseq [OF a] b show ?thesis by (rule subseq_order.trans)
qed

lemma lexicalItems_member:
  "lexicalItems items \<Longrightarrow> (item, node) \<in> set items \<Longrightarrow> lexicalListing node"
  by (induction items) auto

lemma dirBelow_lexical:
  "dirBelow j d node dp items \<Longrightarrow> lexicalListing node \<Longrightarrow> sorted (map fst items)"
proof (induction rule: dirBelow.induct)
  case (top d items)
  then show ?case by simp
next
  case (deeper item sub items d dp its)
  from deeper.prems have "lexicalItems items" by simp
  from lexicalItems_member [OF this deeper.hyps(1)] deeper.IH show ?case by simp
qed

lemma directFiles_sorted: "sorted (map fst items) \<Longrightarrow> sorted (directFiles items)"
  unfolding directFiles_def by (intro sorted_wrt_filter sorted_filter)

lemma sorted_joined:
  assumes "sorted (xs :: string list)" and "\<forall>a b. a \<le> b \<longrightarrow> f a \<le> (f b :: string)"
  shows "sorted (map f xs)"
  using assms by (induction xs) auto

lemma posixJoin_mono: "a \<le> b \<Longrightarrow> posixJoin dp a \<le> posixJoin dp b"
  unfolding posixJoin_def by (induction dp) auto

text \<open>
  Claim C8, as amended. When discovery returns, its result holds exactly the joined
  paths of the non-directory entries below the root whose names end with one of the
  four content extensions (such a name never ends with \<open>.meta.xml\<close>, so the second
  test of \<open>isProcessableFile\<close> excludes nothing further). The result is the
  concatenation, in the order of the listing, of what each entry contributes, a
  subdirectory contributing its whole subtree at its place in the listing
  (depth-first). For every directory of the tree, at any depth, the processable files
  lying directly in it occur in the result in the order of the listing; with the
  listings in lexical order, as \<open>readdirSync\<close> hands them out, their names are in
  lexical order, and so are their paths when joining to the directory keeps the
  order of names.
\<close>

theorem C8_discovery_depth_first_lexical:
  assumes "findFiles j d node = Inr files"
  shows "set files = {p. \<exists>n k. entryBelow j d node p n k \<and> isProcessableFile n}
       \<and> (\<forall>items. node = Directory items \<longrightarrow> files = concat (map (contribution j d) items))
       \<and> (\<forall>dp items. dirBelow j d node dp items \<longrightarrow>
            subseq (map (j dp) (directFiles items)) files
          \<and> (lexicalListing node \<longrightarrow>
               sorted (directFiles items)
             \<and> ((\<forall>a b. a \<le> b \<longrightarrow> j dp a \<le> j dp b) \<longrightarrow>
                  sorted (map (j dp) (directFiles items)))))
       \<and> (\<forall>n. isProcessableFile n = (\<exists>ext \<in> set extensions. endsWith n ext))"
proof -
  have a: "set files = {p. \<exists>n k. entryBelow j d node p n k \<and> isProcessableFile n}"
    using findFiles_members(1) [of j d node files] assms by simp
  have b: "files = concat (map (contribution j d) items)" if "node = Directory items" for items
    using assms that findItems_concat [of j d items files] by simp
  have c: "subseq (map (j dp) (directFiles items)) files"
    if "dirBelow j d node dp items" for dp items
    using that assms by (rule dirBelow_direct_subseq)
  have s: "sorted (directFiles items)"
    if "dirBelow j d node dp items" and "lexicalListing node" for dp items
    using dirBelow_lexical [OF that] by (rule directFiles_sorted)
  have m: "sorted (map (j dp) (directFiles items))"
    if "dirBelow j d node dp items" and "lexicalListing node"
      and "\<forall>a b. a \<le> b \<longrightarrow> j dp a \<le> j dp b" for dp items
    using s [OF that(1,2)] that(3) by (rule sorted_joined)
  have e: "isProcessableFile n = (\<exists>ext \<in> set extensions. endsWith n ext)" for n
    using processable_not_sidecar [of n] by (auto simp: isProcessableFile_def)
  show ?thesis
    apply (intro conjI allI impI)
    subgoal by (rule a)
    subgoal by (erule b)
    subgoal by (erule c)
    subgoal by (rule s; assumption)
    subgoal by (rule m; assumption)
    subgoal by (rule e)
    done
qed

text \<open>
  The claim as first stated promises regular files only. From a listing whose first
  entry \<open>a.txt\<close> is a FIFO, discovery returns the FIFO's path with the regular file's.
\<close>

theorem C8_discovery_depth_first_lexical_counterexample:
  "findFiles posixJoin ''data'' demoFifoTree = Inr [''data/a.txt'', ''data/b.txt'']
   \<and> lexicalListing demoFifoTree
   \<and> entryBelow posixJoin ''data'' demoFifoTree ''data/a.txt'' ''a.txt'' SpecialFile
   \<and> \<not> entryBelow posixJoin ''data'' demoFifoTree ''data/a.txt'' ''a.txt'' RegularFile"
  by (simp add: demoFifoTree_def posixJoin_def isProcessableFile_def extensions_def endsWith_def
      entryBelow_Cons entryBelow_Nil)

theorem C8_discovery_depth_first_lexical_witness:
  "findFiles posixJoin ''data'' demoNestedTree
     = Inr [''data/a.txt'', ''data/notes/n.md'', ''data/z.html'']
   \<and> lexicalListing demoNestedTree
   \<and> dirBelow posixJoin ''data'' demoNestedTree ''data/notes'' demoNotes
   \<and> directFiles demoNotes = [''n.md'']
   \<and> subseq (map (posixJoin ''data/notes'') (directFiles demoNotes))
        [''data/a.txt'', ''data/notes/n.md'', ''data/z.html'']
   \<and> sorted (map (posixJoin ''data/notes'') (directFiles demoNotes))
   \<and> (\<exists>n k. entryBelow posixJoin ''data'' demoNestedTree ''data/notes/n.md'' n k
            \<and> isProcessableFile n)
   \<and> \<not> (\<exists>n k. entryBelow posixJoin ''data'' demoNestedTree ''data/a.txt.meta.xml'' n k
            \<and> isProcessableFile n)"
proof -
  have h: "findFiles posixJoin ''data'' demoNestedTree
     = Inr [''data/a.txt'', ''data/notes/n.md'', ''data/z.html'']"
    by (simp add: demoNestedTree_def demoNotes_def posixJoin_def isProcessableFile_def
        extensions_def endsWith_def)
  have l: "lexicalListing demoNestedTree"
    by (simp add: demoNestedTree_def demoNotes_def)
  have "dirBelow posixJoin (posixJoin ''data'' ''notes'') (Directory demoNotes)
          (posixJoin ''data'' ''notes'') demoNotes"
    by (rule dirBelow.top)
  then have "dirBelow posixJoin ''data'' demoNestedTree (posixJoin ''data'' ''notes'') demoNotes"
    unfolding demoNestedTree_def by (rule dirBelow.deeper [rotated]) simp
  then have db: "dirBelow posixJoin ''data'' demoNestedTree ''data/notes'' demoNotes"
    by (simp add: posixJoin_def)
  have df: "directFiles demoNotes = [''n.md'']"
    by (simp add: directFiles_def demoNotes_def isProcessableFile_def extensions_def endsWith_def)
  have mono: "\<forall>a b. a \<le> b \<longrightarrow> posixJoin ''data/notes'' a \<le> posixJoin ''data/notes'' b"
    by (simp add: posixJoin_mono)
  note t = C8_discovery_depth_first_lexical [OF h]
  note m = t [THEN conjunct1]
  have i: "''data/notes/n.md'' \<in> set [''data/a.txt'', ''data/notes/n.md'', ''data/z.html'']"
    and o: "''data/a.txt.meta.xml'' \<notin> set [''data/a.txt'', ''data/notes/n.md'', ''data/z.html'']"
    by simp_all
  from i o have e: "(\<exists>n k. entryBelow posixJoin ''data'' demoNestedTree ''data/notes/n.md'' n k
            \<and> isProcessableFile n)
   \<and> \<not> (\<exists>n k. entryBelow posixJoin ''data'' demoNestedTree ''data/a.txt.meta.xml'' n k
            \<and> isProcessableFile n)"
    unfolding m by blast
  note c = t [THEN conjunct2, THEN conjunct2, THEN conjunct1, rule_format, OF db]
  note c1 = c [THEN conjunct1]
  note c2 = c [THEN conjunct2, THEN mp, OF l]
  note c3 = c2 [THEN conjunct2, THEN mp, OF mono]
  from h l db df c1 c3 e show ?thesis by (intro conjI) (erule conjunct1 | erule conjunct2 | assumption)+
qed

section \<open>Determinism of the report\<close>

lemma extractMetadata_same:
  assumes "ex (p @ ''.meta.xml'') = existsSync E (p @ ''.meta.xml'')"
  shows "extractMetadata (E\<lparr> now := t, existsSync := ex \<rparr>) p = extractMetadata E p"
proof -
  have "extractEmbedded (E\<lparr> now := t, existsSync := ex \<rparr>) p = extractEmbedded E p"
    by (simp add: extractEmbedded_def cong: if_cong sum.case_cong)
  then show ?thesis
    using assms by (simp add: extractMetadata_def Let_def cong: if_cong sum.case_cong)
qed

lemma processFile_same:
  assumes "ex (p @ ''.meta.xml'') = existsSync E (p @ ''.meta.xml'')"
  shows "processFile cfg (E\<lparr> now := t, existsSync := ex \<rparr>) p s = processFile cfg E p s"
  using assms
  by (simp add: processFile_def extractMetadata_same Let_def
      cong: if_cong sum.case_cong option.case_cong)

lemma processFiles_same:
  assumes "\<forall>p. ex (p @ ''.meta.xml'') = existsSync E (p @ ''.meta.xml'')"
  shows "processFiles cfg (E\<lparr> now := t, existsSync := ex \<rparr>) files s = processFiles cfg E files s"
  using assms by (induction files arbitrary: s) (simp_all add: processFile_same)

lemma ensureDir_same:
  assumes "\<forall>d. ex d \<noteq> existsSync E d \<longrightarrow> mkdirSync E d = None"
  shows "(if ex d then None else mkdirSync E d) = (if existsSync E d then None else mkdirSync E d)"
  using assms by (cases "ex d = existsSync E d") auto

lemma copyCleanFile_same:
  assumes "\<forall>d. ex d \<noteq> existsSync E d \<longrightarrow> mkdirSync E d = None"
  shows "copyCleanFile cfg (E\<lparr> now := t, existsSync := ex \<rparr>) item acc = copyCleanFile cfg E item acc"
  by (simp add: copyCleanFile_def Let_def ensureDir_same [OF assms]
      cong: if_cong sum.case_cong option.case_cong prod.case_cong)

lemma copyCleanFiles_same:
  assumes "\<forall>d. ex d \<noteq> existsSync E d \<longrightarrow> mkdirSync E d = None"
  shows "copyCleanFiles cfg (E\<lparr> now := t, existsSync := ex \<rparr>) items acc
         = copyCleanFiles cfg E items acc"
  by (induction items arbitrary: acc) (simp_all add: copyCleanFile_same [OF assms])

lemma getReport_same: "getReport (E\<lparr> now := t, existsSync := ex \<rparr>) s = getReport E s"
  by (simp add: getReport_def)

lemma writtenReport_append:
  "writtenReport (out @ [ReportFile p r, w])
   = (case writtenReport out of Some r' \<Rightarrow> Some r' | None \<Rightarrow> Some r)"
  by (induction out rule: writtenReport.induct) simp_all

lemma generateReports_same:
  "map_sum id writtenReport (generateReports cfg (E\<lparr> now := t, existsSync := ex \<rparr>) s out)
   = map_sum id writtenReport (generateReports cfg E s out)"
  "map_sum id (\<lambda>out. st) (generateReports cfg (E\<lparr> now := t, existsSync := ex \<rparr>) s out)
   = map_sum id (\<lambda>out. st) (generateReports cfg E s out)"
  by (simp_all add: generateReports_def Let_def getReport_same writtenReport_append
      split: option.split)

lemma run_views:
  "runReport (run cfg E s)
   = (case runCore cfg E s of Inl e \<Rightarrow> Inl e
      | Inr copied \<Rightarrow> map_sum id writtenReport (generateReports cfg E (fst copied) (snd copied)))"
  "map_sum id finalStats (run cfg E s)
   = (case runCore cfg E s of Inl e \<Rightarrow> Inl e
      | Inr copied \<Rightarrow> map_sum id (\<lambda>out. fst copied) (generateReports cfg E (fst copied) (snd copied)))"
  by (simp_all add: run_def runCore_def runReport_def Let_def split: option.split sum.split)

lemma runCore_same:
  assumes "\<forall>p. ex (p @ ''.meta.xml'') = existsSync E (p @ ''.meta.xml'')"
    and "\<forall>d. ex d \<noteq> existsSync E d \<longrightarrow> mkdirSync E d = None"
  shows "runCore cfg (E\<lparr> now := t, existsSync := ex \<rparr>) s = runCore cfg E s"
proof (cases "ex (outputPath cfg) = existsSync E (outputPath cfg)")
  case True
  then show ?thesis
    by (simp add: runCore_def processFiles_same [OF assms(1)] copyCleanFiles_same [OF assms(2)]
        cong: sum.case_cong option.case_cong)
next
  case False
  then have "mkdirSync E (outputPath cfg) = None" using assms(2) by blast
  with False show ?thesis
    by (simp add: runCore_def processFiles_same [OF assms(1)] copyCleanFiles_same [OF assms(2)]
        cong: sum.case_cong option.case_cong)
qed

lemma run_same:
  assumes "\<forall>p. ex (p @ ''.meta.xml'') = existsSync E (p @ ''.meta.xml'')"
    and "\<forall>d. ex d \<noteq> existsSync E d \<longrightarrow> mkdirSync E d = None"
  shows "runReport (run cfg (E\<lparr> now := t, existsSync := ex \<rparr>) s) = runReport (run cfg E s)"
    and "map_sum id finalStats (run cfg (E\<lparr> now := t, existsSync := ex \<rparr>) s)
         = map_sum id finalStats (run cfg E s)"
  by (simp_all add: run_views runCore_same [OF assms] generateReports_same cong: sum.case_cong)

lemma processFiles_totalFiles:
  "totalFiles (fst (processFiles cfg E files s)) = totalFiles s + length files"
  by (induction files arbitrary: s) (simp_all add: Let_def processFile_totalFiles)

lemma run_totalFiles:
  assumes "run cfg E s = Inr d"
    and "findFiles (join E) (datasetPath cfg) (datasetTree E) = Inr files"
  shows "totalFiles (finalStats d) = totalFiles s + length files"
proof -
  from assms have "finalStats d
      = fst (copyCleanFiles cfg E (fst (snd (processFiles cfg E files s)))
               (fst (processFiles cfg E files s), []))"
    by (auto simp: run_def Let_def split: option.splits sum.splits if_splits)
  then show ?thesis
    using copyCleanFiles_counters [of cfg E "fst (snd (processFiles cfg E files s))"
        "(fst (processFiles cfg E files s), [])"]
    by (simp add: processFiles_totalFiles)
qed

text \<open>
  Claim C9, as amended. Two runs with the same configuration over the same input
  tree with the output root cleared, taken at different times and starting from the
  same statistics, write the same statistics report (or fail with the same error)
  and end with the same statistics; in particular the first runs of two new
  pipelines, as the command-line entry makes them, do. The report depends on nothing
  but the configuration, the world and the statistics the run starts from: not on the
  clock, and not on whether the output directories already exist. On the starting
  statistics it does depend: a finished run adds the number of discovered files to
  the \<open>totalFiles\<close> it started with.
\<close>

theorem C9_report_deterministic:
  assumes "sameWorld E1 E2"
  shows "runReport (run cfg E1 s) = runReport (run cfg E2 s)
       \<and> map_sum id finalStats (run cfg E1 s) = map_sum id finalStats (run cfg E2 s)
       \<and> runReport (firstRun cfg E1) = runReport (firstRun cfg E2)
       \<and> (\<forall>d files. run cfg E1 s = Inr d
             \<and> findFiles (join E1) (datasetPath cfg) (datasetTree E1) = Inr files \<longrightarrow>
            totalFiles (finalStats d) = totalFiles s + length files)"
proof -
  from assms have e: "E2 = E1\<lparr> now := now E2, existsSync := existsSync E2 \<rparr>"
    and a: "\<forall>p. existsSync E2 (p @ ''.meta.xml'') = existsSync E1 (p @ ''.meta.xml'')"
    and b: "\<forall>d. existsSync E2 d \<noteq> existsSync E1 d \<longrightarrow> mkdirSync E1 d = None"
    by (simp_all add: sameWorld_def)
  have "runReport (run cfg E2 s') = runReport (run cfg E1 s')
        \<and> map_sum id finalStats (run cfg E2 s') = map_sum id finalStats (run cfg E1 s')" for s'
    by (subst (1 2) e) (simp add: run_same [OF a b])
  then show ?thesis by (auto simp: firstRun_def run_totalFiles)
qed

text \<open>
  The claim as first stated covers any two runs. A second \<open>run\<close> on the same pipeline
  instance, in the same world, counts onwards from the first run's statistics: over
  the three items of Scenario A the first report shows 3 files, 1 processed and 2
  skipped, the second 6, 2 and 4.
\<close>

theorem C9_report_deterministic_counterexample:
  "reportTotals (firstRun (demoConfig False) (demoScenarioA ''2026-01-01T00:00:00.000Z''))
     = Some (3, 1, 2, 0)
   \<and> reportTotals (secondRun (demoConfig False) (demoScenarioA ''2026-01-01T00:00:00.000Z''))
     = Some (6, 2, 4, 0)"
  by (simp add: reportTotals_def firstRun_def secondRun_def demoScenarioA_def run_simps demo_simps)

lemma demo_scenarioA_report:
  "runReport (run (demoConfig False) (demoScenarioA t) reset) =
     Inr (Some \<lparr> r_totalFiles = 3, r_processedFiles = 1, r_skippedFiles = 2, r_errorFiles = 0,
                 r_successRate = RateString ''pct'',
                 r_origins = [(''human'', Num 1), (''ai'', Num 0), (''hybrid'', Num 0)],
                 r_authors = 1, r_licenses = 0, r_toolchains = 0,
                 r_sizeMin = 5, r_sizeMax = 5, r_sizeAverage = 5, r_sizeTotal = 5,
                 r_errors = [] \<rparr>)"
  by (simp add: demoScenarioA_def run_simps demo_simps)

lemma sidecar_not_out: "p @ ''.meta.xml'' \<noteq> ''out''"
proof
  assume "p @ ''.meta.xml'' = ''out''"
  then have "length (p @ ''.meta.xml'') = length ''out''" by simp
  then show False by simp
qed

theorem C9_report_deterministic_witness:
  "sameWorld (demoScenarioA ''2026-01-01T00:00:00.000Z'')
     (demoScenarioA_again ''2026-01-02T12:30:00.000Z'')
   \<and> now (demoScenarioA ''2026-01-01T00:00:00.000Z'')
       \<noteq> now (demoScenarioA_again ''2026-01-02T12:30:00.000Z'')
   \<and> existsSync (demoScenarioA ''2026-01-01T00:00:00.000Z'') ''out'' = False
   \<and> existsSync (demoScenarioA_again ''2026-01-02T12:30:00.000Z'') ''out'' = True
   \<and> runReport (firstRun (demoConfig False) (demoScenarioA ''2026-01-01T00:00:00.000Z''))
     = runReport (firstRun (demoConfig False) (demoScenarioA_again ''2026-01-02T12:30:00.000Z''))
   \<and> runReport (firstRun (demoConfig False) (demoScenarioA_again ''2026-01-02T12:30:00.000Z'')) =
     Inr (Some \<lparr> r_totalFiles = 3, r_processedFiles = 1, r_skippedFiles = 2, r_errorFiles = 0,
                 r_successRate = RateString ''pct'',
                 r_origins = [(''human'', Num 1), (''ai'', Num 0), (''hybrid'', Num 0)],
                 r_authors = 1, r_licenses = 0, r_toolchains = 0,
                 r_sizeMin = 5, r_sizeMax = 5, r_sizeAverage = 5, r_sizeTotal = 5,
                 r_errors = [] \<rparr>)"
proof -
  have w: "sameWorld (demoScenarioA ''2026-01-01T00:00:00.000Z'')
             (demoScenarioA_again ''2026-01-02T12:30:00.000Z'')"
    by (auto simp: sameWorld_def demoScenarioA_again_def demoScenarioA_def demoEnv_def
        sidecar_not_out)
  have n: "now (demoScenarioA ''2026-01-01T00:00:00.000Z'')
           \<noteq> now (demoScenarioA_again ''2026-01-02T12:30:00.000Z'')"
    by (simp add: demoScenarioA_again_def demoScenarioA_def demoEnv_def)
  have x: "existsSync (demoScenarioA ''2026-01-01T00:00:00.000Z'') ''out'' = False"
    "existsSync (demoScenarioA_again ''2026-01-02T12:30:00.000Z'') ''out'' = True"
    by (simp_all add: demoScenarioA_again_def demoScenarioA_def demoEnv_def demoFiles_def)
  show ?thesis
    using C9_report_deterministic [OF w, of "demoConfig False" reset] w n x
      demo_scenarioA_report [of "''2026-01-01T00:00:00.000Z''"]
    by (simp add: firstRun_def)
qed

end
